theory Spec2Isabelle
  imports Main "HOL-Library.Word" "HOL-Library.Multiset"
begin

unbundle bit_operations_syntax

section \<open>The data model of poll.c\<close>

text \<open>
  Objects live in a store indexed by addresses. A pointer to a poll object
  (\<^verbatim>\<open>SSH_POLL *\<close>), to a context (\<^verbatim>\<open>SSH_POLL_CTX *\<close>), a callback
  (a function pointer) and the user data (\<^verbatim>\<open>void *\<close>) are addresses.
  A C \<^verbatim>\<open>short\<close> is a 16-bit word; descriptors and return codes are C
  \<^verbatim>\<open>int\<close>s, read as integers; the \<^verbatim>\<open>size_t\<close> counters are natural numbers
  (the theorems below are about contexts whose counters do not wrap: where the
  source would wrap below 0, the subtraction of the model stops at 0).
  The declarations of \<^verbatim>\<open>socket_t\<close> and \<^verbatim>\<open>pollfd_t\<close> are not among the
  sources: a descriptor is the \<^verbatim>\<open>int\<close> that \<^verbatim>\<open>ssh_poll_get_fd\<close> returns and
  that the loops copy into an \<^verbatim>\<open>int fd\<close>.
\<close>

type_synonym short = "16 word"
type_synonym poll_ptr = nat
type_synonym ctx_ptr = nat
type_synonym cb_ptr = nat
type_synonym void_ptr = nat

text \<open>\<^verbatim>\<open>pollfd_t\<close>: the raw record handed to the wait primitive.\<close>

record pollfd_t =
  fd :: int
  events :: short
  revents :: short

text \<open>
  \<^verbatim>\<open>struct ssh_poll\<close>. The anonymous union of \<^verbatim>\<open>fd\<close> and \<^verbatim>\<open>idx\<close> is the one cell
  \<open>fd_idx\<close>: writing either member overwrites the other. \<open>p_fd\<close> and \<open>p_idx\<close>
  read it as the descriptor and as the index (the index read from a cell that
  holds a negative descriptor is not meaningful, in the source as in the model).
  The requested mask \<^verbatim>\<open>events\<close> is the field \<open>p_events\<close> (the name \<open>events\<close> is
  the raw record's).
\<close>

record ssh_poll =
  ctx :: "ctx_ptr option"
  fd_idx :: int
  p_events :: short
  cb :: cb_ptr
  cb_data :: void_ptr

definition p_fd :: "ssh_poll \<Rightarrow> int" where
  "p_fd pe = fd_idx pe"

definition p_idx :: "ssh_poll \<Rightarrow> nat" where
  "p_idx pe = nat (fd_idx pe)"

text \<open>
  \<^verbatim>\<open>struct ssh_poll_ctx\<close>. An array is a list behind a pointer: \<open>None\<close> is the
  \<^verbatim>\<open>NULL\<close> pointer, \<open>Some xs\<close> a block holding the elements \<open>xs\<close>.
\<close>

record ssh_poll_ctx =
  pollptrs :: "poll_ptr list option"
  pollfds :: "pollfd_t list option"
  polls_allocated :: nat
  polls_used :: nat
  chunk_size :: nat

record heap =
  polls :: "poll_ptr \<Rightarrow> ssh_poll option"
  ctxs :: "ctx_ptr \<Rightarrow> ssh_poll_ctx option"

datatype error = OutOfMemory | AlreadyAttached

text \<open>Every failure of the context operations is the C return value \<open>-1\<close>, success is \<open>0\<close>.\<close>

definition rc_of :: "error + unit \<Rightarrow> int" where
  "rc_of r = (case r of Inl e \<Rightarrow> - 1 | Inr u \<Rightarrow> 0)"

definition SSH_POLL_CTX_CHUNK :: nat where
  "SSH_POLL_CTX_CHUNK = 5"

subsection \<open>Reading and writing the store\<close>

definition poll_at :: "heap \<Rightarrow> poll_ptr \<Rightarrow> ssh_poll" where
  "poll_at h p = the (polls h p)"

definition ctx_at :: "heap \<Rightarrow> ctx_ptr \<Rightarrow> ssh_poll_ctx" where
  "ctx_at h c = the (ctxs h c)"

definition poll_upd :: "poll_ptr \<Rightarrow> (ssh_poll \<Rightarrow> ssh_poll) \<Rightarrow> heap \<Rightarrow> heap" where
  "poll_upd p f h = h\<lparr>polls := (polls h)(p := map_option f (polls h p))\<rparr>"

definition ctx_upd :: "ctx_ptr \<Rightarrow> (ssh_poll_ctx \<Rightarrow> ssh_poll_ctx) \<Rightarrow> heap \<Rightarrow> heap" where
  "ctx_upd c f h = h\<lparr>ctxs := (ctxs h)(c := map_option f (ctxs h c))\<rparr>"

text \<open>\<open>rd a i\<close> is \<^verbatim>\<open>a[i]\<close> and \<open>wr a i v\<close> is \<^verbatim>\<open>a[i] = v\<close>.\<close>

definition rd :: "'a list option \<Rightarrow> nat \<Rightarrow> 'a" where
  "rd a i = the a ! i"

definition wr :: "'a list option \<Rightarrow> nat \<Rightarrow> 'a \<Rightarrow> 'a list option" where
  "wr a i v = map_option (\<lambda>xs. xs[i := v]) a"

text \<open>
  \<^verbatim>\<open>realloc(a, n * sizeof *a)\<close>. Whether the allocator succeeds is not decided by
  the program: it is the argument \<open>ok\<close>. On success the block has \<open>n\<close> elements, the
  old ones as far as they fit, and \<open>fill\<close> stands for what the fresh memory holds.
  On failure the result is \<^verbatim>\<open>NULL\<close> and the old block stays as it is.
\<close>

definition realloc :: "bool \<Rightarrow> 'a \<Rightarrow> 'a list option \<Rightarrow> nat \<Rightarrow> 'a list option" where
  "realloc ok fill a n =
     (if ok
      then (let xs = (case a of None \<Rightarrow> [] | Some ys \<Rightarrow> ys)
            in Some (take n xs @ replicate (n - length xs) fill))
      else None)"

text \<open>
  The allocator's answers to the (at most three) \<^verbatim>\<open>realloc\<close> calls of one
  \<^verbatim>\<open>ssh_poll_ctx_resize\<close>: the pointer array, the raw records, and the
  pointer array again when the growth is undone.
\<close>

record alloc =
  ptrs_ok :: bool
  fds_ok :: bool
  undo_ok :: bool
  ptr_fill :: poll_ptr
  fd_fill :: pollfd_t

section \<open>Poll objects\<close>

text \<open>\<^verbatim>\<open>ssh_poll_new\<close>; \<open>m\<close> is what \<^verbatim>\<open>malloc\<close> returned.\<close>

definition ssh_poll_new ::
  "poll_ptr option \<Rightarrow> int \<Rightarrow> short \<Rightarrow> cb_ptr \<Rightarrow> void_ptr \<Rightarrow> heap \<Rightarrow> poll_ptr option \<times> heap" where
  "ssh_poll_new m fd0 ev cb0 userdata h =
     (case m of
        None \<Rightarrow> (None, h)
      | Some p \<Rightarrow>
          (Some p,
           h\<lparr>polls := (polls h)(p \<mapsto>
               \<lparr>ctx = None, fd_idx = fd0, p_events = ev, cb = cb0, cb_data = userdata\<rparr>)\<rparr>))"

definition ssh_poll_free :: "poll_ptr \<Rightarrow> heap \<Rightarrow> heap" where
  "ssh_poll_free p h = h\<lparr>polls := (polls h)(p := None)\<rparr>"

definition ssh_poll_get_ctx :: "poll_ptr \<Rightarrow> heap \<Rightarrow> ctx_ptr option" where
  "ssh_poll_get_ctx p h = ctx (poll_at h p)"

definition ssh_poll_get_events :: "poll_ptr \<Rightarrow> heap \<Rightarrow> short" where
  "ssh_poll_get_events p h = p_events (poll_at h p)"

definition ssh_poll_set_events :: "poll_ptr \<Rightarrow> short \<Rightarrow> heap \<Rightarrow> heap" where
  "ssh_poll_set_events p ev h =
     (let h1 = poll_upd p (\<lambda>pe. pe\<lparr>p_events := ev\<rparr>) h;
          pe = poll_at h1 p
      in case ctx pe of
           None \<Rightarrow> h1
         | Some c \<Rightarrow>
             ctx_upd c (\<lambda>cx. cx\<lparr>pollfds :=
               wr (pollfds cx) (p_idx pe) ((rd (pollfds cx) (p_idx pe))\<lparr>events := ev\<rparr>)\<rparr>) h1)"

definition ssh_poll_add_events :: "poll_ptr \<Rightarrow> short \<Rightarrow> heap \<Rightarrow> heap" where
  "ssh_poll_add_events p ev h = ssh_poll_set_events p (ssh_poll_get_events p h OR ev) h"

definition ssh_poll_remove_events :: "poll_ptr \<Rightarrow> short \<Rightarrow> heap \<Rightarrow> heap" where
  "ssh_poll_remove_events p ev h = ssh_poll_set_events p (ssh_poll_get_events p h AND NOT ev) h"

definition ssh_poll_get_fd :: "poll_ptr \<Rightarrow> heap \<Rightarrow> int" where
  "ssh_poll_get_fd p h =
     (let pe = poll_at h p
      in case ctx pe of
           Some c \<Rightarrow> fd (rd (pollfds (ctx_at h c)) (p_idx pe))
         | None \<Rightarrow> p_fd pe)"

section \<open>Poll contexts\<close>

text \<open>\<^verbatim>\<open>ssh_poll_ctx_new\<close>; \<open>m\<close> is what \<^verbatim>\<open>malloc\<close> returned.\<close>

definition ssh_poll_ctx_new :: "ctx_ptr option \<Rightarrow> nat \<Rightarrow> heap \<Rightarrow> ctx_ptr option \<times> heap" where
  "ssh_poll_ctx_new m chunk h =
     (case m of
        None \<Rightarrow> (None, h)
      | Some c \<Rightarrow>
          (Some c,
           h\<lparr>ctxs := (ctxs h)(c \<mapsto>
               \<lparr>pollptrs = None, pollfds = None, polls_allocated = 0, polls_used = 0,
                chunk_size = (if chunk = 0 then SSH_POLL_CTX_CHUNK else chunk)\<rparr>)\<rparr>))"

text \<open>
  \<^verbatim>\<open>ssh_poll_ctx_resize\<close>. When the second \<^verbatim>\<open>realloc\<close> fails, the pointer array
  the first one returned is reallocated to \<^verbatim>\<open>polls_allocated\<close> elements and
  stored, and the counters are left alone.
\<close>

definition ssh_poll_ctx_resize :: "alloc \<Rightarrow> ctx_ptr \<Rightarrow> nat \<Rightarrow> heap \<Rightarrow> (error + unit) \<times> heap" where
  "ssh_poll_ctx_resize al c new_size h =
     (let cx = ctx_at h c
      in case realloc (ptrs_ok al) (ptr_fill al) (pollptrs cx) new_size of
           None \<Rightarrow> (Inl OutOfMemory, h)
         | Some pp \<Rightarrow>
             (case realloc (fds_ok al) (fd_fill al) (pollfds cx) new_size of
                None \<Rightarrow>
                  (Inl OutOfMemory,
                   ctx_upd c (\<lambda>cx. cx\<lparr>pollptrs :=
                     realloc (undo_ok al) (ptr_fill al) (Some pp) (polls_allocated cx)\<rparr>) h)
              | Some pf \<Rightarrow>
                  (Inr (),
                   ctx_upd c (\<lambda>cx. cx\<lparr>pollptrs := Some pp, pollfds := Some pf,
                                        polls_allocated := new_size\<rparr>) h)))"

text \<open>
  \<^verbatim>\<open>ssh_poll_ctx_add\<close>. The resize is attempted only when the arrays are full
  (the \<^verbatim>\<open>&&\<close> of the source).
\<close>

definition ssh_poll_ctx_add :: "alloc \<Rightarrow> ctx_ptr \<Rightarrow> poll_ptr \<Rightarrow> heap \<Rightarrow> (error + unit) \<times> heap" where
  "ssh_poll_ctx_add al c p h =
     (if ctx (poll_at h p) \<noteq> None then (Inl AlreadyAttached, h)
      else
        (let cx = ctx_at h c;
             (r, h1) = (if polls_used cx = polls_allocated cx
                        then ssh_poll_ctx_resize al c (polls_allocated cx + chunk_size cx) h
                        else (Inr (), h))
         in case r of
              Inl e \<Rightarrow> (Inl OutOfMemory, h1)
            | Inr u \<Rightarrow>
                (let fd0 = p_fd (poll_at h1 p);
                     i = polls_used (ctx_at h1 c);
                     h2 = poll_upd p (\<lambda>pe. pe\<lparr>fd_idx := int i\<rparr>) h1;
                     h3 = ctx_upd c (\<lambda>cx. cx\<lparr>polls_used := polls_used cx + 1\<rparr>) h2;
                     j = p_idx (poll_at h3 p);
                     h4 = ctx_upd c (\<lambda>cx. cx\<lparr>pollptrs := wr (pollptrs cx) j p\<rparr>) h3;
                     h5 = ctx_upd c (\<lambda>cx. cx\<lparr>pollfds := wr (pollfds cx) j
                            \<lparr>fd = fd0, events = p_events (poll_at h4 p), revents = 0\<rparr>\<rparr>) h4
                 in (Inr (), poll_upd p (\<lambda>pe. pe\<lparr>ctx := Some c\<rparr>) h5))))"

text \<open>
  \<^verbatim>\<open>ssh_poll_ctx_remove\<close>. The position is read from the object
  (\<^verbatim>\<open>i = p->idx\<close>); the last live slot is copied into slot \<open>i\<close> when it is another
  one; the arrays shrink by one chunk when more than \<^verbatim>\<open>chunk_size\<close> slots are
  free. The result of that resize is ignored by the source.
\<close>

definition ssh_poll_ctx_remove :: "alloc \<Rightarrow> ctx_ptr \<Rightarrow> poll_ptr \<Rightarrow> heap \<Rightarrow> heap" where
  "ssh_poll_ctx_remove al c p h =
     (let i = p_idx (poll_at h p);
          h1 = poll_upd p (\<lambda>pe. pe\<lparr>fd_idx := fd (rd (pollfds (ctx_at h c)) i)\<rparr>) h;
          h2 = poll_upd p (\<lambda>pe. pe\<lparr>ctx := None\<rparr>) h1;
          h3 = ctx_upd c (\<lambda>cx. cx\<lparr>polls_used := polls_used cx - 1\<rparr>) h2;
          u = polls_used (ctx_at h3 c);
          h4 = (if 0 < u \<and> u \<noteq> i
                then ctx_upd c (\<lambda>cx. cx\<lparr>pollptrs := wr (pollptrs cx) i (rd (pollptrs cx) u)\<rparr>)
                       (ctx_upd c (\<lambda>cx. cx\<lparr>pollfds := wr (pollfds cx) i (rd (pollfds cx) u)\<rparr>) h3)
                else h3);
          cx = ctx_at h4 c
      in if chunk_size cx < polls_allocated cx - polls_used cx
         then snd (ssh_poll_ctx_resize al c (polls_allocated cx - chunk_size cx) h4)
         else h4)"

section \<open>Callbacks and the two loops that call them\<close>

text \<open>
  A callback (\<^verbatim>\<open>ssh_poll_callback\<close>) receives the poll object, the descriptor,
  the returned events and the user data; it returns an \<^verbatim>\<open>int\<close> and may change
  the store in any way (detach or attach objects, for instance). The function
  pointers stored in the objects are interpreted by a table \<open>cbs\<close>.
  Every invocation is recorded: that is how a theorem can say which callbacks
  ran, how often, and with which arguments.
\<close>

type_synonym callback = "poll_ptr \<Rightarrow> int \<Rightarrow> int \<Rightarrow> void_ptr \<Rightarrow> heap \<Rightarrow> int \<times> heap"

datatype cb_call = CbCall (callee: poll_ptr) (c_fd: int) (c_revents: int) (c_data: void_ptr)

text \<open>\<^verbatim>\<open>p->cb(p, fd, revents, p->cb_data)\<close> in the store \<open>h\<close>.\<close>

definition call_cb :: "(cb_ptr \<Rightarrow> callback) \<Rightarrow> heap \<Rightarrow> poll_ptr \<Rightarrow> int \<Rightarrow> int \<Rightarrow> int \<times> heap" where
  "call_cb cbs h p fd0 rv = cbs (cb (poll_at h p)) p fd0 rv (cb_data (poll_at h p)) h"

text \<open>
  The value of \<^verbatim>\<open>POLLERR\<close> in the platform's headers (and in the library's own
  replacement of them); the sources at hand only use the name.
\<close>

definition POLLERR :: int where
  "POLLERR = 8"

text \<open>
  The \<^verbatim>\<open>for\<close> loop of \<^verbatim>\<open>ssh_poll_ctx_free\<close>. A callback that keeps returning a
  negative value without detaching anything keeps the loop running for ever, so
  the loop is given fuel: \<open>None\<close> means that the fuel did not suffice.
\<close>

fun ssh_poll_ctx_free_loop ::
  "nat \<Rightarrow> (cb_ptr \<Rightarrow> callback) \<Rightarrow> ctx_ptr \<Rightarrow> nat \<Rightarrow> nat \<Rightarrow> heap \<Rightarrow> cb_call list
     \<Rightarrow> (heap \<times> cb_call list) option" where
  "ssh_poll_ctx_free_loop 0 cbs c i used h tr = None"
| "ssh_poll_ctx_free_loop (Suc k) cbs c i used h tr =
     (if i < used
      then (let p = rd (pollptrs (ctx_at h c)) i;
                fd0 = fd (rd (pollfds (ctx_at h c)) i);
                r = call_cb cbs h p fd0 POLLERR;
                tr1 = tr @ [CbCall p fd0 POLLERR (cb_data (poll_at h p))]
            in if fst r < 0
               then ssh_poll_ctx_free_loop k cbs c i (polls_used (ctx_at (snd r) c)) (snd r) tr1
               else ssh_poll_ctx_free_loop k cbs c (i + 1) used (snd r) tr1)
      else Some (h, tr))"

text \<open>
  Modelled from the spec: the macro \<^verbatim>\<open>SAFE_FREE\<close> (its header is not among the
  sources) releases the block and leaves \<^verbatim>\<open>NULL\<close> in the variable; after the
  sweep "both sequences are freed and the context itself is freed".
  \<open>ssh_poll_ctx_free_arrays\<close> is the body of the \<^verbatim>\<open>if\<close>, \<open>ssh_poll_ctx_free\<close> the
  whole function.
\<close>

definition ssh_poll_ctx_free_arrays ::
  "nat \<Rightarrow> (cb_ptr \<Rightarrow> callback) \<Rightarrow> ctx_ptr \<Rightarrow> heap \<Rightarrow> (heap \<times> cb_call list) option" where
  "ssh_poll_ctx_free_arrays k cbs c h =
     (if 0 < polls_allocated (ctx_at h c)
      then (case ssh_poll_ctx_free_loop k cbs c 0 (polls_used (ctx_at h c)) h [] of
              None \<Rightarrow> None
            | Some (h1, tr) \<Rightarrow>
                Some (ctx_upd c (\<lambda>cx. cx\<lparr>pollfds := None\<rparr>)
                        (ctx_upd c (\<lambda>cx. cx\<lparr>pollptrs := None\<rparr>) h1), tr))
      else Some (h, []))"

definition ssh_poll_ctx_free ::
  "nat \<Rightarrow> (cb_ptr \<Rightarrow> callback) \<Rightarrow> ctx_ptr \<Rightarrow> heap \<Rightarrow> (heap \<times> cb_call list) option" where
  "ssh_poll_ctx_free k cbs c h =
     (case ssh_poll_ctx_free_arrays k cbs c h of
        None \<Rightarrow> None
      | Some (h1, tr) \<Rightarrow> Some (h1\<lparr>ctxs := (ctxs h1)(c := None)\<rparr>, tr))"

text \<open>
  \<open>live h c\<close> is the sequence of the objects attached to the context \<open>c\<close>, in
  the order of their slots.

  \<open>removal_contract I cbs c\<close> is what the sweep of \<^verbatim>\<open>ssh_poll_ctx_free\<close> asks of
  the callbacks, relative to an invariant \<open>I\<close> of the sweep (of the index and
  the store): no callback releases the context; a callback called for the
  object in slot \<open>i\<close> that returns a negative value has taken exactly that
  object out of the slots from \<open>i\<close> on (whatever the order of the others); and
  one that returns another value has left the attached sequence as it was.
\<close>

definition live :: "heap \<Rightarrow> ctx_ptr \<Rightarrow> poll_ptr list" where
  "live h c = map (rd (pollptrs (ctx_at h c))) [0..<polls_used (ctx_at h c)]"

definition removal_contract ::
  "(nat \<Rightarrow> heap \<Rightarrow> bool) \<Rightarrow> (cb_ptr \<Rightarrow> callback) \<Rightarrow> ctx_ptr \<Rightarrow> bool" where
  "removal_contract I cbs c \<longleftrightarrow>
     (\<forall>i h. I i h \<longrightarrow>
        ctxs h c \<noteq> None \<and>
        (i < polls_used (ctx_at h c) \<longrightarrow>
           (let p = rd (pollptrs (ctx_at h c)) i;
                r = call_cb cbs h p (fd (rd (pollfds (ctx_at h c)) i)) POLLERR
            in if fst r < 0
               then I i (snd r) \<and>
                    mset (drop i (live (snd r) c)) + {#p#} = mset (drop i (live h c))
               else I (i + 1) (snd r) \<and> live (snd r) c = live h c)))"

text \<open>
  The \<^verbatim>\<open>for\<close> loop of \<^verbatim>\<open>ssh_poll_ctx\<close>, with its local variables \<open>i\<close>, \<open>used\<close>
  and \<open>rc\<close>. Each turn either advances \<open>i\<close> or decrements \<open>rc\<close>, so the loop ends
  whatever the callbacks do.
\<close>

function ssh_poll_ctx_loop ::
  "(cb_ptr \<Rightarrow> callback) \<Rightarrow> ctx_ptr \<Rightarrow> nat \<Rightarrow> nat \<Rightarrow> int \<Rightarrow> heap \<Rightarrow> cb_call list
     \<Rightarrow> int \<times> heap \<times> cb_call list" where
  "ssh_poll_ctx_loop cbs c i used rc h tr =
     (if i < used \<and> 0 < rc
      then (if revents (rd (pollfds (ctx_at h c)) i) = 0
            then ssh_poll_ctx_loop cbs c (i + 1) used rc h tr
            else (let p = rd (pollptrs (ctx_at h c)) i;
                      fd0 = fd (rd (pollfds (ctx_at h c)) i);
                      rv = sint (revents (rd (pollfds (ctx_at h c)) i));
                      r = call_cb cbs h p fd0 rv;
                      tr1 = tr @ [CbCall p fd0 rv (cb_data (poll_at h p))]
                  in if fst r < 0
                     then ssh_poll_ctx_loop cbs c i (polls_used (ctx_at (snd r) c)) (rc - 1)
                            (snd r) tr1
                     else ssh_poll_ctx_loop cbs c (i + 1) used (rc - 1)
                            (ctx_upd c (\<lambda>cx. cx\<lparr>pollfds :=
                               wr (pollfds cx) i ((rd (pollfds cx) i)\<lparr>revents := 0\<rparr>)\<rparr>) (snd r))
                            tr1))
      else (rc, h, tr))"
  by pat_completeness auto
termination
  by (relation "measures [\<lambda>(cbs, c, i, used, rc, h, tr). nat rc,
                          \<lambda>(cbs, c, i, used, rc, h, tr). used - i]") auto

text \<open>
  The wait primitive \<^verbatim>\<open>ssh_poll\<close> is one of three functions, chosen when the
  library is built; \<^verbatim>\<open>ssh_poll_ctx\<close> is modelled over any of them. The primitive
  gets the array, the number of entries and the timeout, works in a world \<open>'w\<close>
  (the operating system), and returns its result and the array as it left it.
  The calls of the primitive are recorded as well.
\<close>

type_synonym 'w wait_primitive =
  "pollfd_t list option \<Rightarrow> nat \<Rightarrow> int \<Rightarrow> 'w \<Rightarrow> int \<times> pollfd_t list option \<times> 'w"

datatype wait_call = WaitCall (w_fds: "pollfd_t list option") (w_nfds: nat) (w_timeout: int)

record 'w dispatched =
  d_rc :: int
  d_heap :: heap
  d_world :: 'w
  d_waits :: "wait_call list"
  d_calls :: "cb_call list"

definition ssh_poll_ctx ::
  "'w wait_primitive \<Rightarrow> (cb_ptr \<Rightarrow> callback) \<Rightarrow> ctx_ptr \<Rightarrow> int \<Rightarrow> heap \<Rightarrow> 'w \<Rightarrow> 'w dispatched" where
  "ssh_poll_ctx sp cbs c timeout h w =
     (if polls_used (ctx_at h c) = 0
      then \<lparr>d_rc = 0, d_heap = h, d_world = w, d_waits = [], d_calls = []\<rparr>
      else (let cx = ctx_at h c;
                res = sp (pollfds cx) (polls_used cx) timeout w;
                rc = fst res;
                h1 = ctx_upd c (\<lambda>cx. cx\<lparr>pollfds := fst (snd res)\<rparr>) h;
                w1 = snd (snd res);
                ws = [WaitCall (pollfds cx) (polls_used cx) timeout]
            in if 0 < rc
               then (let l = ssh_poll_ctx_loop cbs c 0 (polls_used (ctx_at h1 c)) rc h1 []
                     in \<lparr>d_rc = fst l, d_heap = fst (snd l), d_world = w1, d_waits = ws,
                         d_calls = snd (snd l)\<rparr>)
               else \<lparr>d_rc = rc, d_heap = h1, d_world = w1, d_waits = ws, d_calls = []\<rparr>))"

section \<open>The emulated wait primitive\<close>

text \<open>
  The variant of \<^verbatim>\<open>ssh_poll\<close> built on \<^verbatim>\<open>WaitForMultipleObjectsEx\<close>. The
  constants are the values of the Windows headers, which are not part of the
  repository. A \<^verbatim>\<open>DWORD\<close> is a natural number below \<open>2 ^ 32\<close>; \<open>to_dword\<close> is the
  conversion of an \<^verbatim>\<open>int\<close> to it and \<open>to_int\<close> the conversion back. A \<^verbatim>\<open>HANDLE\<close>
  is the descriptor it was cast from.
\<close>

definition MAXIMUM_WAIT_OBJECTS :: nat where
  "MAXIMUM_WAIT_OBJECTS = 64"

definition WAIT_OBJECT_0 :: nat where
  "WAIT_OBJECT_0 = 0"

definition WAIT_IO_COMPLETION :: nat where
  "WAIT_IO_COMPLETION = 192"

definition WAIT_TIMEOUT :: nat where
  "WAIT_TIMEOUT = 258"

definition WAIT_FAILED :: nat where
  "WAIT_FAILED = 4294967295"

definition INFINITE :: nat where
  "INFINITE = 4294967295"

definition to_dword :: "int \<Rightarrow> nat" where
  "to_dword t = nat (t mod 2 ^ 32)"

definition to_int :: "nat \<Rightarrow> int" where
  "to_int d = (if d mod 2 ^ 32 < 2 ^ 31 then int (d mod 2 ^ 32) else int (d mod 2 ^ 32) - 2 ^ 32)"

datatype errno = EFAULT | EINVAL | EBADF

text \<open>
  The operating system: what \<^verbatim>\<open>WaitForMultipleObjectsEx\<close> answers for a handle
  set and a timeout, and what \<^verbatim>\<open>SleepEx\<close> does, in a world \<open>'w\<close> that both may
  change. The calls made are recorded.
\<close>

record 'w win32 =
  WaitForMultipleObjectsEx :: "int list \<Rightarrow> nat \<Rightarrow> 'w \<Rightarrow> nat \<times> 'w"
  SleepEx :: "nat \<Rightarrow> 'w \<Rightarrow> 'w"

datatype os_call = OsWait (o_handles: "int list") (o_timeout: nat) | OsSleep nat

text \<open>The walk \<^verbatim>\<open>for (f = fds; f < &fds[nfds]; f++)\<close> that reports a fired handle.\<close>

fun mark_ready :: "int \<Rightarrow> pollfd_t list \<Rightarrow> pollfd_t list" where
  "mark_ready hnd [] = []"
| "mark_ready hnd (f # fs) =
     (if fd f = hnd then f\<lparr>revents := events f\<rparr> else f) # mark_ready hnd fs"

text \<open>The walk that clears every \<^verbatim>\<open>revents\<close> after a failure.\<close>

fun clear_revents :: "pollfd_t list \<Rightarrow> pollfd_t list" where
  "clear_revents [] = []"
| "clear_revents (f # fs) = f\<lparr>revents := 0\<rparr> # clear_revents fs"

text \<open>Both walks touch the first \<open>nfds\<close> entries of the array only.\<close>

definition on_first :: "nat \<Rightarrow> (pollfd_t list \<Rightarrow> pollfd_t list) \<Rightarrow> pollfd_t list \<Rightarrow> pollfd_t list" where
  "on_first nfds g fds = g (take nfds fds) @ drop nfds fds"

text \<open>
  \<^verbatim>\<open>for (i = ready - WAIT_OBJECT_0 + 1; i < nhandles; i++) handles[i-1] = handles[i];\<close>
\<close>

function shift_handles :: "int list \<Rightarrow> nat \<Rightarrow> nat \<Rightarrow> int list" where
  "shift_handles handles i nhandles =
     (if i < nhandles
      then shift_handles (handles[i - 1 := handles ! i]) (i + 1) nhandles
      else handles)"
  by pat_completeness auto
termination
  by (relation "measure (\<lambda>(handles, i, nhandles). nhandles - i)") auto

text \<open>
  The first part of \<^verbatim>\<open>poll_rest\<close>: the wait itself. With no handle there is
  nothing to wait for but the timeout, and an infinite one is a failure.
\<close>

definition poll_rest_wait ::
  "'w win32 \<Rightarrow> int list \<Rightarrow> nat \<Rightarrow> int \<Rightarrow> 'w \<Rightarrow> nat \<times> 'w \<times> os_call list" where
  "poll_rest_wait os handles nhandles timeout w =
     (if nhandles = 0
      then (if to_dword timeout = INFINITE
            then (WAIT_FAILED, w, [])
            else (WAIT_TIMEOUT, SleepEx os (to_dword timeout) w, [OsSleep (to_dword timeout)]))
      else (let r = WaitForMultipleObjectsEx os (take nhandles handles) (to_dword timeout) w
            in (fst r, snd r, [OsWait (take nhandles handles) (to_dword timeout)])))"

record 'w polled =
  r_rc :: int
  r_handles :: "int list"
  r_fds :: "pollfd_t list"
  r_world :: 'w
  r_log :: "os_call list"

text \<open>
  \<^verbatim>\<open>poll_rest\<close>. The array \<open>handles\<close> is changed in place when the handle that
  fired is taken out, so it is part of the result, as the entries \<open>fds\<close> are.
\<close>

function poll_rest ::
  "'w win32 \<Rightarrow> int list \<Rightarrow> nat \<Rightarrow> pollfd_t list \<Rightarrow> nat \<Rightarrow> int \<Rightarrow> 'w \<Rightarrow> 'w polled" where
  "poll_rest os handles nhandles fds nfds timeout w =
     (let wt = poll_rest_wait os handles nhandles timeout w;
          ready = fst wt;
          w1 = fst (snd wt);
          lg = snd (snd wt)
      in if ready = WAIT_FAILED
         then \<lparr>r_rc = - 1, r_handles = handles, r_fds = fds, r_world = w1, r_log = lg\<rparr>
         else if ready = WAIT_TIMEOUT \<or> ready = WAIT_IO_COMPLETION
         then \<lparr>r_rc = 0, r_handles = handles, r_fds = fds, r_world = w1, r_log = lg\<rparr>
         else if WAIT_OBJECT_0 \<le> ready \<and> ready < WAIT_OBJECT_0 + nhandles
         then (let fds1 = on_first nfds (mark_ready (handles ! (ready - WAIT_OBJECT_0))) fds
               in if timeout = 0 \<and> 1 < nhandles
                  then (let handles1 = (if ready < nhandles - 1
                                        then shift_handles handles (ready - WAIT_OBJECT_0 + 1) nhandles
                                        else handles);
                            rr = poll_rest os handles1 (nhandles - 1) fds1 nfds 0 w1
                        in if r_rc rr < 0
                           then rr\<lparr>r_rc := - 1, r_log := lg @ r_log rr\<rparr>
                           else rr\<lparr>r_rc := r_rc rr + 1, r_log := lg @ r_log rr\<rparr>)
                  else \<lparr>r_rc = 1, r_handles = handles, r_fds = fds1, r_world = w1, r_log = lg\<rparr>)
         else \<lparr>r_rc = 0, r_handles = handles, r_fds = fds, r_world = w1, r_log = lg\<rparr>)"
  by pat_completeness auto
termination
  by (relation "measure (\<lambda>(os, handles, nhandles, fds, nfds, timeout, w). nhandles)") auto

text \<open>
  The search \<^verbatim>\<open>for (i = 0; i < nhandles; i++) if (handles[i] == fd) break;\<close>:
  the result is the value of \<open>i\<close> after it, the number of handles when none
  is equal.
\<close>

fun find_handle :: "int \<Rightarrow> int list \<Rightarrow> nat" where
  "find_handle x [] = 0"
| "find_handle x (y # ys) = (if y = x then 0 else Suc (find_handle x ys))"

text \<open>
  The first loop of \<^verbatim>\<open>ssh_poll\<close>: a descriptor is put into the handle array
  when it is strictly positive and not there yet; the loop is left when the array is full.
\<close>

fun collect_handles :: "pollfd_t list \<Rightarrow> int list \<Rightarrow> int list" where
  "collect_handles [] handles = handles"
| "collect_handles (f # fs) handles =
     (if 0 < fd f
      then (if find_handle (fd f) handles = length handles
            then (if length handles = MAXIMUM_WAIT_OBJECTS
                  then handles
                  else collect_handles fs (handles @ [fd f]))
            else collect_handles fs handles)
      else collect_handles fs handles)"

text \<open>
  The middle of \<^verbatim>\<open>ssh_poll\<close>: with more than one handle, a first
  \<^verbatim>\<open>poll_rest\<close> with timeout 0, and a second one with the timeout when the
  first found nothing and the timeout is infinite or at least ten milliseconds;
  with at most one handle, one \<^verbatim>\<open>poll_rest\<close> with the timeout.
\<close>

definition ssh_poll_waits ::
  "'w win32 \<Rightarrow> int list \<Rightarrow> nat \<Rightarrow> pollfd_t list \<Rightarrow> nat \<Rightarrow> int \<Rightarrow> 'w \<Rightarrow> 'w polled" where
  "ssh_poll_waits os handles nhandles fds nfds timeout w =
     (if 1 < nhandles
      then (let r0 = poll_rest os handles nhandles fds nfds 0 w
            in if r_rc r0 = 0 \<and> (to_dword timeout = INFINITE \<or> 10 \<le> timeout)
               then (let r1 = poll_rest os (r_handles r0) nhandles (r_fds r0) nfds timeout
                                (r_world r0)
                     in r1\<lparr>r_log := r_log r0 @ r_log r1\<rparr>)
               else r0)
      else poll_rest os handles nhandles fds nfds timeout w)"

record 'w poll_result =
  p_rc :: int
  p_errno :: "errno option"
  p_fds :: "pollfd_t list option"
  p_world :: 'w
  p_log :: "os_call list"

text \<open>
  \<^verbatim>\<open>ssh_poll\<close>. \<open>p_errno\<close> is \<open>None\<close> when \<^verbatim>\<open>errno\<close> is not assigned. The array
  is \<open>None\<close> for a \<^verbatim>\<open>NULL\<close> pointer.
\<close>

definition ssh_poll ::
  "'w win32 \<Rightarrow> pollfd_t list option \<Rightarrow> nat \<Rightarrow> int \<Rightarrow> 'w \<Rightarrow> 'w poll_result" where
  "ssh_poll os fdsp nfds timeout0 w =
     (case fdsp of
        None \<Rightarrow> \<lparr>p_rc = - 1, p_errno = Some EFAULT, p_fds = None, p_world = w, p_log = []\<rparr>
      | Some fds \<Rightarrow>
          if MAXIMUM_WAIT_OBJECTS \<le> nfds
          then \<lparr>p_rc = - 1, p_errno = Some EINVAL, p_fds = Some fds, p_world = w, p_log = []\<rparr>
          else (let handles = collect_handles (take nfds fds) [];
                    nhandles = length handles;
                    timeout = (if timeout0 = - 1 then to_int INFINITE else timeout0);
                    res = ssh_poll_waits os handles nhandles fds nfds timeout w
                in if r_rc res < 0
                   then \<lparr>p_rc = r_rc res, p_errno = Some EBADF,
                         p_fds = Some (on_first nfds clear_revents (r_fds res)),
                         p_world = r_world res, p_log = r_log res\<rparr>
                   else \<lparr>p_rc = r_rc res, p_errno = None, p_fds = Some (r_fds res),
                         p_world = r_world res, p_log = r_log res\<rparr>))"

text \<open>The emulated \<^verbatim>\<open>ssh_poll\<close> as the wait primitive of \<^verbatim>\<open>ssh_poll_ctx\<close>.\<close>

definition ssh_poll_primitive :: "'w win32 \<Rightarrow> 'w wait_primitive" where
  "ssh_poll_primitive os fdsp nfds timeout w =
     (let r = ssh_poll os fdsp nfds timeout w in (p_rc r, p_fds r, p_world r))"

text \<open>
  Two relations used in the proofs about the emulation. \<open>fds_kept fds out\<close>: the
  entries \<open>out\<close> are the entries \<open>fds\<close> with, at most, other returned events in
  entries whose descriptor is strictly positive. \<open>log_within S lg\<close>: every handle
  of every wait recorded in \<open>lg\<close> is in \<open>S\<close>.
\<close>

definition fds_kept :: "pollfd_t list \<Rightarrow> pollfd_t list \<Rightarrow> bool" where
  "fds_kept fds out \<longleftrightarrow>
     length out = length fds \<and>
     (\<forall>j<length fds. fd (out ! j) = fd (fds ! j) \<and> events (out ! j) = events (fds ! j) \<and>
        (fd (fds ! j) \<le> 0 \<longrightarrow> out ! j = fds ! j))"

definition log_within :: "int set \<Rightarrow> os_call list \<Rightarrow> bool" where
  "log_within S lg \<longleftrightarrow> (\<forall>hs t. OsWait hs t \<in> set lg \<longrightarrow> set hs \<subseteq> S)"

section \<open>A concrete run\<close>

text \<open>
  A context at address 100 created with chunk size 2, and three poll objects at
  the addresses 21, 22 and 23 for the descriptors 10, 11 and 12, with the
  callbacks \<open>ka\<close>, \<open>kb\<close> and \<open>kc\<close>. Every allocation succeeds and fresh memory
  holds zeros. The objects are attached in this order; then one is detached.
\<close>

definition heap0 :: heap where
  "heap0 = \<lparr>polls = (\<lambda>p. None), ctxs = (\<lambda>c. None)\<rparr>"

definition al_ok :: alloc where
  "al_ok = \<lparr>ptrs_ok = True, fds_ok = True, undo_ok = True, ptr_fill = 0,
            fd_fill = \<lparr>fd = 0, events = 0, revents = 0\<rparr>\<rparr>"

definition scn_new :: "cb_ptr \<Rightarrow> cb_ptr \<Rightarrow> cb_ptr \<Rightarrow> heap" where
  "scn_new ka kb kc =
     snd (ssh_poll_new (Some 23) 12 1 kc 0
       (snd (ssh_poll_new (Some 22) 11 1 kb 0
         (snd (ssh_poll_new (Some 21) 10 1 ka 0
           (snd (ssh_poll_ctx_new (Some 100) 2 heap0)))))))"

definition scn_add1 :: "cb_ptr \<Rightarrow> cb_ptr \<Rightarrow> cb_ptr \<Rightarrow> heap" where
  "scn_add1 ka kb kc = snd (ssh_poll_ctx_add al_ok 100 21 (scn_new ka kb kc))"

definition scn_add2 :: "cb_ptr \<Rightarrow> cb_ptr \<Rightarrow> cb_ptr \<Rightarrow> heap" where
  "scn_add2 ka kb kc = snd (ssh_poll_ctx_add al_ok 100 22 (scn_add1 ka kb kc))"

definition scn_add3 :: "cb_ptr \<Rightarrow> cb_ptr \<Rightarrow> cb_ptr \<Rightarrow> heap" where
  "scn_add3 ka kb kc = snd (ssh_poll_ctx_add al_ok 100 23 (scn_add2 ka kb kc))"

definition scn_del2 :: "cb_ptr \<Rightarrow> cb_ptr \<Rightarrow> cb_ptr \<Rightarrow> heap" where
  "scn_del2 ka kb kc = ssh_poll_ctx_remove al_ok 100 22 (scn_add3 ka kb kc)"

definition scn_del1 :: "cb_ptr \<Rightarrow> cb_ptr \<Rightarrow> cb_ptr \<Rightarrow> heap" where
  "scn_del1 ka kb kc = ssh_poll_ctx_remove al_ok 100 21 (scn_add3 ka kb kc)"

definition scn_readd1 :: "cb_ptr \<Rightarrow> cb_ptr \<Rightarrow> cb_ptr \<Rightarrow> heap" where
  "scn_readd1 ka kb kc = snd (ssh_poll_ctx_add al_ok 100 21 (scn_del1 ka kb kc))"

text \<open>
  Three callbacks for the run. The first leaves everything as it is; the second
  detaches the object it is called for and reports the removal; the third
  detaches the object at address 21, whichever object it is called for, and
  reports the removal, as long as that object is attached.
\<close>

definition cb_keep :: callback where
  "cb_keep p fd0 rv ud h = (0, h)"

definition cb_detach :: callback where
  "cb_detach p fd0 rv ud h =
     (case ctx (poll_at h p) of
        None \<Rightarrow> (0, h)
      | Some c \<Rightarrow> (- 1, ssh_poll_ctx_remove al_ok c p h))"

definition cb_detach_first :: callback where
  "cb_detach_first p fd0 rv ud h =
     (case ctx (poll_at h 21) of
        None \<Rightarrow> (0, h)
      | Some c \<Rightarrow> (- 1, ssh_poll_ctx_remove al_ok c 21 h))"

definition cbs_demo :: "cb_ptr \<Rightarrow> callback" where
  "cbs_demo k = (if k = 2 then cb_detach else if k = 3 then cb_detach_first else cb_keep)"

text \<open>The three objects attached, and every one of them reported ready.\<close>

definition scn_ready :: "cb_ptr \<Rightarrow> cb_ptr \<Rightarrow> cb_ptr \<Rightarrow> heap" where
  "scn_ready ka kb kc =
     ctx_upd 100 (\<lambda>cx. cx\<lparr>pollfds :=
       map_option (map (\<lambda>f. f\<lparr>revents := events f\<rparr>)) (pollfds cx)\<rparr>) (scn_add3 ka kb kc)"

text \<open>A wait primitive for the run: it reports one ready entry and changes nothing.\<close>

definition wait_one :: "unit wait_primitive" where
  "wait_one fds nfds timeout w = (1, fds, w)"

text \<open>
  Two operating systems for the run, in a world with nothing in it. In the
  first no handle ever fires and every wait ends by its timeout. In the second
  nothing is ready at once, and the second handle fires in every wait that
  has a timeout.
\<close>

definition os_quiet :: "unit win32" where
  "os_quiet =
     \<lparr>WaitForMultipleObjectsEx = (\<lambda>hs t w. (WAIT_TIMEOUT, w)), SleepEx = (\<lambda>t w. w)\<rparr>"

definition os_late :: "unit win32" where
  "os_late =
     \<lparr>WaitForMultipleObjectsEx =
        (\<lambda>hs t w. (if t = 0 then WAIT_TIMEOUT else WAIT_OBJECT_0 + 1, w)),
      SleepEx = (\<lambda>t w. w)\<rparr>"

text \<open>Shorthands for the objects of the run.\<close>

definition mk_poll :: "ctx_ptr option \<Rightarrow> int \<Rightarrow> cb_ptr \<Rightarrow> ssh_poll" where
  "mk_poll c v k = \<lparr>ctx = c, fd_idx = v, p_events = 1, cb = k, cb_data = 0\<rparr>"

definition mk_fd :: "int \<Rightarrow> pollfd_t" where
  "mk_fd v = \<lparr>fd = v, events = 1, revents = 0\<rparr>"

definition mk_ctx :: "poll_ptr list \<Rightarrow> pollfd_t list \<Rightarrow> nat \<Rightarrow> nat \<Rightarrow> ssh_poll_ctx" where
  "mk_ctx ps fs a u =
     \<lparr>pollptrs = Some ps, pollfds = Some fs, polls_allocated = a, polls_used = u, chunk_size = 2\<rparr>"

text \<open>
  A second run: the objects at 21 and 22 are attached, both with the callback
  that detaches its own object. \<open>scn_sweep1\<close> and \<open>scn_sweep2\<close> are the
  stores after the first and after the second callback of the sweep, and
  \<open>sweep_inv\<close> is the invariant of that sweep. \<open>scn_del13\<close> is the store of
  the first run after the objects at 21 and 23 were detached, in this order.
\<close>

definition scn_sweep1 :: heap where
  "scn_sweep1 = ssh_poll_ctx_remove al_ok 100 21 (scn_add2 2 2 2)"

definition scn_sweep2 :: heap where
  "scn_sweep2 = ssh_poll_ctx_remove al_ok 100 22 scn_sweep1"

definition sweep_inv :: "nat \<Rightarrow> heap \<Rightarrow> bool" where
  "sweep_inv i h \<longleftrightarrow> i = 0 \<and> (h = scn_add2 2 2 2 \<or> h = scn_sweep1 \<or> h = scn_sweep2)"

definition scn_del13 :: "cb_ptr \<Rightarrow> cb_ptr \<Rightarrow> cb_ptr \<Rightarrow> heap" where
  "scn_del13 ka kb kc = ssh_poll_ctx_remove al_ok 100 23 (scn_del1 ka kb kc)"

text \<open>
  Inputs of the emulated wait primitive: two descriptors; descriptors of which
  two are strictly positive; no strictly positive descriptor, with returned events
  left over from an earlier call; and as many entries as the primitive refuses.
\<close>

definition fds_two :: "pollfd_t list" where
  "fds_two = [mk_fd 10, mk_fd 11]"

definition fds_mixed :: "pollfd_t list" where
  "fds_mixed = [mk_fd 0, mk_fd 10, mk_fd (- 3), mk_fd 11]"

definition fds_none :: "pollfd_t list" where
  "fds_none = [\<lparr>fd = 0, events = 1, revents = 1\<rparr>, \<lparr>fd = - 3, events = 1, revents = 1\<rparr>]"

definition fds_many :: "pollfd_t list" where
  "fds_many = replicate 64 \<lparr>fd = 0, events = 1, revents = 1\<rparr>"

declare ssh_poll_ctx_loop.simps [simp del]
declare shift_handles.simps [simp del]
declare poll_rest.simps [simp del]

section \<open>The states of the concrete run\<close>

lemma replicate_numeral: "replicate (numeral k) x = x # replicate (pred_numeral k) x"
  by (simp add: numeral_eq_Suc)

lemmas op_defs = ssh_poll_ctx_add_def ssh_poll_ctx_resize_def ssh_poll_ctx_remove_def
  realloc_def poll_at_def ctx_at_def poll_upd_def ctx_upd_def rd_def wr_def p_fd_def p_idx_def
  Let_def replicate_numeral mk_poll_def mk_fd_def mk_ctx_def al_ok_def

lemma scn_new_facts:
  "ctxs (scn_new ka kb kc) 100 =
     Some \<lparr>pollptrs = None, pollfds = None, polls_allocated = 0, polls_used = 0, chunk_size = 2\<rparr>"
  "polls (scn_new ka kb kc) 21 = Some (mk_poll None 10 ka)"
  "polls (scn_new ka kb kc) 22 = Some (mk_poll None 11 kb)"
  "polls (scn_new ka kb kc) 23 = Some (mk_poll None 12 kc)"
  by (simp_all add: scn_new_def heap0_def mk_poll_def ssh_poll_new_def ssh_poll_ctx_new_def)

lemma scn_add1_facts:
  "fst (ssh_poll_ctx_add al_ok 100 21 (scn_new ka kb kc)) = Inr ()"
  "ctxs (scn_add1 ka kb kc) 100 = Some (mk_ctx [21, 0] [mk_fd 10, fd_fill al_ok] 2 1)"
  "polls (scn_add1 ka kb kc) 21 = Some (mk_poll (Some 100) 0 ka)"
  "polls (scn_add1 ka kb kc) 22 = Some (mk_poll None 11 kb)"
  "polls (scn_add1 ka kb kc) 23 = Some (mk_poll None 12 kc)"
  by (simp_all add: scn_add1_def scn_new_facts op_defs)

lemma scn_add2_facts:
  "fst (ssh_poll_ctx_add al_ok 100 22 (scn_add1 ka kb kc)) = Inr ()"
  "ctxs (scn_add2 ka kb kc) 100 = Some (mk_ctx [21, 22] [mk_fd 10, mk_fd 11] 2 2)"
  "polls (scn_add2 ka kb kc) 21 = Some (mk_poll (Some 100) 0 ka)"
  "polls (scn_add2 ka kb kc) 22 = Some (mk_poll (Some 100) 1 kb)"
  "polls (scn_add2 ka kb kc) 23 = Some (mk_poll None 12 kc)"
  by (simp_all add: scn_add2_def scn_add1_facts op_defs)

lemma scn_add3_facts:
  "fst (ssh_poll_ctx_add al_ok 100 23 (scn_add2 ka kb kc)) = Inr ()"
  "ctxs (scn_add3 ka kb kc) 100 =
     Some (mk_ctx [21, 22, 23, 0] [mk_fd 10, mk_fd 11, mk_fd 12, fd_fill al_ok] 4 3)"
  "polls (scn_add3 ka kb kc) 21 = Some (mk_poll (Some 100) 0 ka)"
  "polls (scn_add3 ka kb kc) 22 = Some (mk_poll (Some 100) 1 kb)"
  "polls (scn_add3 ka kb kc) 23 = Some (mk_poll (Some 100) 2 kc)"
  by (simp_all add: scn_add3_def scn_add2_facts op_defs)

lemma scn_del2_facts:
  "ctxs (scn_del2 ka kb kc) 100 =
     Some (mk_ctx [21, 23, 23, 0] [mk_fd 10, mk_fd 12, mk_fd 12, fd_fill al_ok] 4 2)"
  "polls (scn_del2 ka kb kc) 21 = Some (mk_poll (Some 100) 0 ka)"
  "polls (scn_del2 ka kb kc) 22 = Some (mk_poll None 11 kb)"
  "polls (scn_del2 ka kb kc) 23 = Some (mk_poll (Some 100) 2 kc)"
  by (simp_all add: scn_del2_def scn_add3_facts op_defs)

lemma scn_del1_facts:
  "ctxs (scn_del1 ka kb kc) 100 =
     Some (mk_ctx [23, 22, 23, 0] [mk_fd 12, mk_fd 11, mk_fd 12, fd_fill al_ok] 4 2)"
  "polls (scn_del1 ka kb kc) 21 = Some (mk_poll None 10 ka)"
  "polls (scn_del1 ka kb kc) 22 = Some (mk_poll (Some 100) 1 kb)"
  "polls (scn_del1 ka kb kc) 23 = Some (mk_poll (Some 100) 2 kc)"
  by (simp_all add: scn_del1_def scn_add3_facts op_defs)

lemma scn_readd1_facts:
  "fst (ssh_poll_ctx_add al_ok 100 21 (scn_del1 ka kb kc)) = Inr ()"
  "ctxs (scn_readd1 ka kb kc) 100 =
     Some (mk_ctx [23, 22, 21, 0] [mk_fd 12, mk_fd 11, mk_fd 10, fd_fill al_ok] 4 3)"
  "polls (scn_readd1 ka kb kc) 21 = Some (mk_poll (Some 100) 2 ka)"
  "polls (scn_readd1 ka kb kc) 22 = Some (mk_poll (Some 100) 1 kb)"
  "polls (scn_readd1 ka kb kc) 23 = Some (mk_poll (Some 100) 2 kc)"
  by (simp_all add: scn_readd1_def scn_del1_facts op_defs)

lemma scn_ready_facts:
  "ctxs (scn_ready ka kb kc) 100 =
     Some (mk_ctx [21, 22, 23, 0]
       [(mk_fd 10)\<lparr>revents := 1\<rparr>, (mk_fd 11)\<lparr>revents := 1\<rparr>, (mk_fd 12)\<lparr>revents := 1\<rparr>, fd_fill al_ok] 4 3)"
  "polls (scn_ready ka kb kc) 21 = Some (mk_poll (Some 100) 0 ka)"
  "polls (scn_ready ka kb kc) 22 = Some (mk_poll (Some 100) 1 kb)"
  "polls (scn_ready ka kb kc) 23 = Some (mk_poll (Some 100) 2 kc)"
  by (simp_all add: scn_ready_def scn_add3_facts ctx_upd_def mk_ctx_def mk_fd_def al_ok_def)

lemmas cb_defs = call_cb_def cbs_demo_def cb_keep_def cb_detach_def cb_detach_first_def

section \<open>Attaching\<close>

text \<open>
  C7. An object that already has a context is refused by \<^verbatim>\<open>ssh_poll_ctx_add\<close>,
  whatever the context and the allocator: the call fails with
  \<open>AlreadyAttached\<close> (the return value \<open>-1\<close>) and the store, hence the object's
  fields and the context's arrays and counters, is the one before the call.
\<close>

theorem ssh_poll_ctx_add_already_attached:
  "ctx (poll_at h p) = Some c0 \<Longrightarrow>
     ssh_poll_ctx_add al c p h = (Inl AlreadyAttached, h) \<and>
     rc_of (fst (ssh_poll_ctx_add al c p h)) = - 1"
  by (simp add: ssh_poll_ctx_add_def rc_of_def)

theorem ssh_poll_ctx_add_already_attached_witness:
  "ctx (poll_at (scn_add1 0 0 0) 21) = Some 100 \<and>
   ssh_poll_ctx_add al_ok 100 21 (scn_add1 0 0 0) = (Inl AlreadyAttached, scn_add1 0 0 0) \<and>
   rc_of (fst (ssh_poll_ctx_add al_ok 100 21 (scn_add1 0 0 0))) = - 1"
proof -
  have a: "ctx (poll_at (scn_add1 0 0 0) 21) = Some 100"
    by (simp add: poll_at_def scn_add1_facts mk_poll_def)
  show ?thesis
    using a ssh_poll_ctx_add_already_attached [OF a, of al_ok 100] by blast
qed

section \<open>Growing and shrinking\<close>

text \<open>
  C4, as the code has it. From a context created with chunk size 2, attaching
  the objects for the descriptors 10, 11 and 12 takes the capacity from 0 to 2
  and then to 4, with three slots used. Detaching the object for descriptor 11
  copies the pointer and the raw record of descriptor 12 into slot 1 and leaves
  two slots used. The capacity stays 4: the arrays shrink only when the free
  slots exceed the chunk size, and here there are exactly 2.
\<close>

theorem attach_three_detach_middle:
  "polls_allocated (ctx_at (scn_new 0 0 0) 100) = 0 \<and>
   chunk_size (ctx_at (scn_new 0 0 0) 100) = 2 \<and>
   fst (ssh_poll_ctx_add al_ok 100 21 (scn_new 0 0 0)) = Inr () \<and>
   polls_allocated (ctx_at (scn_add1 0 0 0) 100) = 2 \<and>
   fst (ssh_poll_ctx_add al_ok 100 22 (scn_add1 0 0 0)) = Inr () \<and>
   polls_allocated (ctx_at (scn_add2 0 0 0) 100) = 2 \<and>
   fst (ssh_poll_ctx_add al_ok 100 23 (scn_add2 0 0 0)) = Inr () \<and>
   polls_allocated (ctx_at (scn_add3 0 0 0) 100) = 4 \<and>
   polls_used (ctx_at (scn_add3 0 0 0) 100) = 3 \<and>
   map (\<lambda>p. ssh_poll_get_fd p (scn_add3 0 0 0)) [21, 22, 23] = [10, 11, 12] \<and>
   rd (pollptrs (ctx_at (scn_del2 0 0 0) 100)) 1 = 23 \<and>
   fd (rd (pollfds (ctx_at (scn_del2 0 0 0) 100)) 1) = 12 \<and>
   ctx (poll_at (scn_del2 0 0 0) 22) = None \<and>
   polls_used (ctx_at (scn_del2 0 0 0) 100) = 2 \<and>
   polls_allocated (ctx_at (scn_del2 0 0 0) 100) = 4"
  by (simp add: ctx_at_def poll_at_def rd_def ssh_poll_get_fd_def p_idx_def
      scn_new_facts scn_add1_facts scn_add2_facts scn_add3_facts scn_del2_facts
      mk_ctx_def mk_poll_def mk_fd_def)

text \<open>The capacity the claim names, 2, is not the capacity after the detach.\<close>

theorem detach_middle_does_not_shrink:
  "polls_allocated (ctx_at (scn_del2 0 0 0) 100) \<noteq> 2"
  by (simp add: ctx_at_def scn_del2_facts mk_ctx_def)

section \<open>Detaching\<close>

text \<open>
  C1, at a failing input. Three objects are attached and the first is
  detached. The pointer and the raw record of the last live slot are copied into
  slot 0, but the position stored in the moved object is still 2, which is no
  live slot any more. When the detached object is attached again it takes slot
  2, and from then on the moved object's stored position denotes the other
  object: \<^verbatim>\<open>ssh_poll_get_fd\<close> of the object for descriptor 12 answers 10.
\<close>

theorem ssh_poll_ctx_remove_keeps_stale_idx:
  "rd (pollptrs (ctx_at (scn_add3 0 0 0) 100)) 2 = 23 \<and>
   p_idx (poll_at (scn_add3 0 0 0) 23) = 2 \<and>
   polls_used (ctx_at (scn_del1 0 0 0) 100) = 2 \<and>
   rd (pollptrs (ctx_at (scn_del1 0 0 0) 100)) 0 = 23 \<and>
   fd (rd (pollfds (ctx_at (scn_del1 0 0 0) 100)) 0) = 12 \<and>
   ctx (poll_at (scn_del1 0 0 0) 23) = Some 100 \<and>
   p_idx (poll_at (scn_del1 0 0 0) 23) = 2 \<and>
   rd (pollptrs (ctx_at (scn_readd1 0 0 0) 100)) (p_idx (poll_at (scn_readd1 0 0 0) 23)) = 21 \<and>
   ssh_poll_get_fd 23 (scn_readd1 0 0 0) = 10"
  by (simp add: ctx_at_def poll_at_def rd_def ssh_poll_get_fd_def p_idx_def
      scn_add3_facts scn_del1_facts scn_readd1_facts mk_ctx_def mk_poll_def mk_fd_def)

section \<open>Resizing\<close>

text \<open>
  C5. When the first \<^verbatim>\<open>realloc\<close> of \<^verbatim>\<open>ssh_poll_ctx_resize\<close> succeeds and the
  second fails, the call fails with \<open>OutOfMemory\<close> (the return value \<open>-1\<close>); the
  pointer array it stores is the grown one reallocated to the old capacity
  \<^verbatim>\<open>polls_allocated\<close>; the capacity, the used count and the raw records are
  the ones before the call, and nothing else in the store changes. When that
  last \<^verbatim>\<open>realloc\<close> succeeds the pointer array has the old capacity again, and
  after an attempt to grow it is the array before the call.
\<close>

theorem ssh_poll_ctx_resize_undo:
  assumes "ctxs h c = Some cx" and "ptrs_ok al" and "\<not> fds_ok al"
  shows "fst (ssh_poll_ctx_resize al c n h) = Inl OutOfMemory \<and>
         rc_of (fst (ssh_poll_ctx_resize al c n h)) = - 1 \<and>
         snd (ssh_poll_ctx_resize al c n h) =
           h\<lparr>ctxs := (ctxs h)(c \<mapsto> cx\<lparr>pollptrs :=
             realloc (undo_ok al) (ptr_fill al)
               (realloc True (ptr_fill al) (pollptrs cx) n) (polls_allocated cx)\<rparr>)\<rparr> \<and>
         polls_allocated (ctx_at (snd (ssh_poll_ctx_resize al c n h)) c) = polls_allocated cx \<and>
         polls_used (ctx_at (snd (ssh_poll_ctx_resize al c n h)) c) = polls_used cx \<and>
         pollfds (ctx_at (snd (ssh_poll_ctx_resize al c n h)) c) = pollfds cx \<and>
         (undo_ok al \<longrightarrow>
            map_option length (pollptrs (ctx_at (snd (ssh_poll_ctx_resize al c n h)) c)) =
              Some (polls_allocated cx)) \<and>
         (undo_ok al \<and> polls_allocated cx \<le> n \<and>
            map_option length (pollptrs cx) = Some (polls_allocated cx) \<longrightarrow>
            pollptrs (ctx_at (snd (ssh_poll_ctx_resize al c n h)) c) = pollptrs cx)"
proof -
  have r: "ssh_poll_ctx_resize al c n h =
      (Inl OutOfMemory,
       h\<lparr>ctxs := (ctxs h)(c \<mapsto> cx\<lparr>pollptrs :=
             realloc (undo_ok al) (ptr_fill al)
               (realloc True (ptr_fill al) (pollptrs cx) n) (polls_allocated cx)\<rparr>)\<rparr>)"
    using assms by (simp add: ssh_poll_ctx_resize_def realloc_def Let_def ctx_at_def ctx_upd_def)
  show ?thesis
    by (auto simp: r rc_of_def ctx_at_def realloc_def Let_def split: option.splits)
qed

theorem ssh_poll_ctx_resize_undo_witness:
  "ctxs (scn_add2 0 0 0) 100 = Some (mk_ctx [21, 22] [mk_fd 10, mk_fd 11] 2 2) \<and>
   fst (ssh_poll_ctx_resize (al_ok\<lparr>fds_ok := False\<rparr>) 100 4 (scn_add2 0 0 0)) = Inl OutOfMemory \<and>
   polls_allocated (ctx_at (snd (ssh_poll_ctx_resize (al_ok\<lparr>fds_ok := False\<rparr>) 100 4 (scn_add2 0 0 0))) 100) = 2 \<and>
   polls_used (ctx_at (snd (ssh_poll_ctx_resize (al_ok\<lparr>fds_ok := False\<rparr>) 100 4 (scn_add2 0 0 0))) 100) = 2 \<and>
   pollptrs (ctx_at (snd (ssh_poll_ctx_resize (al_ok\<lparr>fds_ok := False\<rparr>) 100 4 (scn_add2 0 0 0))) 100) = Some [21, 22]"
proof -
  have a: "ctxs (scn_add2 0 0 0) 100 = Some (mk_ctx [21, 22] [mk_fd 10, mk_fd 11] 2 2)"
    by (rule scn_add2_facts)
  have b: "ptrs_ok (al_ok\<lparr>fds_ok := False\<rparr>)" and c: "\<not> fds_ok (al_ok\<lparr>fds_ok := False\<rparr>)"
    and d: "undo_ok (al_ok\<lparr>fds_ok := False\<rparr>)"
    by (simp_all add: al_ok_def)
  have e: "polls_allocated (mk_ctx [21, 22] [mk_fd 10, mk_fd 11] 2 2) = 2"
    "polls_used (mk_ctx [21, 22] [mk_fd 10, mk_fd 11] 2 2) = 2"
    "pollptrs (mk_ctx [21, 22] [mk_fd 10, mk_fd 11] 2 2) = Some [21, 22]"
    by (simp_all add: mk_ctx_def)
  from ssh_poll_ctx_resize_undo [OF a b c, of 4] d e a show ?thesis
    by (simp add: ctx_at_def realloc_def replicate_numeral mk_ctx_def al_ok_def)
qed

section \<open>Dispatching\<close>

text \<open>
  C8. On a context with no attached object \<^verbatim>\<open>ssh_poll_ctx\<close> returns 0 for every
  timeout, wait primitive and callback table: the store and the world are the
  ones before the call, and neither the wait primitive nor a callback was
  called.
\<close>

theorem ssh_poll_ctx_empty:
  "polls_used (ctx_at h c) = 0 \<Longrightarrow>
     ssh_poll_ctx sp cbs c timeout h w =
       \<lparr>d_rc = 0, d_heap = h, d_world = w, d_waits = [], d_calls = []\<rparr>"
  by (simp add: ssh_poll_ctx_def)

theorem ssh_poll_ctx_empty_witness:
  "polls_used (ctx_at (scn_new 2 2 2) 100) = 0 \<and>
   ssh_poll_ctx wait_one cbs_demo 100 (- 1) (scn_new 2 2 2) () =
     \<lparr>d_rc = 0, d_heap = scn_new 2 2 2, d_world = (), d_waits = [], d_calls = []\<rparr>"
proof -
  have a: "polls_used (ctx_at (scn_new 2 2 2) 100) = 0"
    by (simp add: ctx_at_def scn_new_facts)
  show ?thesis
    using a ssh_poll_ctx_empty [OF a, of wait_one cbs_demo "- 1" "()"] by blast
qed

text \<open>
  One callback is recorded for each decrement of the counter of ready entries.
\<close>

lemma ssh_poll_ctx_loop_counter:
  "fst (ssh_poll_ctx_loop cbs c i used rc h tr) +
     int (length (snd (snd (ssh_poll_ctx_loop cbs c i used rc h tr)))) = rc + int (length tr)"
proof (induction cbs c i used rc h tr rule: ssh_poll_ctx_loop.induct)
  case (1 cbs c i used rc h tr)
  show ?case
  proof (cases "i < used \<and> 0 < rc")
    case False
    then show ?thesis by (subst (1 2) ssh_poll_ctx_loop.simps) auto
  next
    case go: True
    show ?thesis
    proof (cases "revents (rd (pollfds (ctx_at h c)) i) = 0")
      case True
      with go "1.IH"(1) show ?thesis
        by (subst (1 2) ssh_poll_ctx_loop.simps) auto
    next
      case False
      with go "1.IH"(2,3) show ?thesis
        by (subst (1 2) ssh_poll_ctx_loop.simps) (auto simp: Let_def)
    qed
  qed
qed

text \<open>
  C2. A turn of the loop of \<^verbatim>\<open>ssh_poll_ctx\<close> at an index \<open>i\<close> whose returned
  events are not empty calls the callback of the entry. When the callback
  returns a negative value the loop goes on at the same index with the used
  count read again from the context; otherwise the returned events at index \<open>i\<close>
  are cleared in the array as the callback left it and the loop goes on at
  \<open>i + 1\<close> with the used count it had. The counter of ready entries is
  decremented either way; the loop stops as soon as the counter is not positive
  or the index has reached the used count; and the counter returned is the
  initial one less the number of callbacks called.
\<close>

theorem ssh_poll_ctx_loop_step:
  "(i < used \<and> 0 < rc \<and> revents (rd (pollfds (ctx_at h c)) i) \<noteq> 0 \<longrightarrow>
      ssh_poll_ctx_loop cbs c i used rc h tr =
        (let p = rd (pollptrs (ctx_at h c)) i;
             fd0 = fd (rd (pollfds (ctx_at h c)) i);
             rv = sint (revents (rd (pollfds (ctx_at h c)) i));
             r = call_cb cbs h p fd0 rv;
             tr1 = tr @ [CbCall p fd0 rv (cb_data (poll_at h p))]
         in if fst r < 0
            then ssh_poll_ctx_loop cbs c i (polls_used (ctx_at (snd r) c)) (rc - 1) (snd r) tr1
            else ssh_poll_ctx_loop cbs c (i + 1) used (rc - 1)
                   (ctx_upd c (\<lambda>cx. cx\<lparr>pollfds :=
                      wr (pollfds cx) i ((rd (pollfds cx) i)\<lparr>revents := 0\<rparr>)\<rparr>) (snd r))
                   tr1)) \<and>
   (\<not> (i < used \<and> 0 < rc) \<longrightarrow> ssh_poll_ctx_loop cbs c i used rc h tr = (rc, h, tr)) \<and>
   fst (ssh_poll_ctx_loop cbs c i used rc h tr) =
     rc - (int (length (snd (snd (ssh_poll_ctx_loop cbs c i used rc h tr)))) - int (length tr))"
proof (intro conjI impI)
  assume a: "i < used \<and> 0 < rc \<and> revents (rd (pollfds (ctx_at h c)) i) \<noteq> 0"
  then show "ssh_poll_ctx_loop cbs c i used rc h tr =
        (let p = rd (pollptrs (ctx_at h c)) i;
             fd0 = fd (rd (pollfds (ctx_at h c)) i);
             rv = sint (revents (rd (pollfds (ctx_at h c)) i));
             r = call_cb cbs h p fd0 rv;
             tr1 = tr @ [CbCall p fd0 rv (cb_data (poll_at h p))]
         in if fst r < 0
            then ssh_poll_ctx_loop cbs c i (polls_used (ctx_at (snd r) c)) (rc - 1) (snd r) tr1
            else ssh_poll_ctx_loop cbs c (i + 1) used (rc - 1)
                   (ctx_upd c (\<lambda>cx. cx\<lparr>pollfds :=
                      wr (pollfds cx) i ((rd (pollfds cx) i)\<lparr>revents := 0\<rparr>)\<rparr>) (snd r))
                   tr1)"
    by (subst ssh_poll_ctx_loop.simps) simp
next
  assume "\<not> (i < used \<and> 0 < rc)"
  then show "ssh_poll_ctx_loop cbs c i used rc h tr = (rc, h, tr)"
    by (subst ssh_poll_ctx_loop.simps) auto
next
  show "fst (ssh_poll_ctx_loop cbs c i used rc h tr) =
     rc - (int (length (snd (snd (ssh_poll_ctx_loop cbs c i used rc h tr)))) - int (length tr))"
    using ssh_poll_ctx_loop_counter [of cbs c i used rc h tr] by linarith
qed


theorem ssh_poll_ctx_loop_step_witness:
  "ssh_poll_ctx_loop cbs_demo 100 0 3 3 (scn_ready 0 0 0) [] =
     ssh_poll_ctx_loop cbs_demo 100 1 3 2
       (ctx_upd 100 (\<lambda>cx. cx\<lparr>pollfds :=
          wr (pollfds cx) 0 ((rd (pollfds cx) 0)\<lparr>revents := 0\<rparr>)\<rparr>) (scn_ready 0 0 0))
       [CbCall 21 10 1 0] \<and>
   ssh_poll_ctx_loop cbs_demo 100 0 3 3 (scn_ready 2 2 2) [] =
     ssh_poll_ctx_loop cbs_demo 100 0
       (polls_used (ctx_at (ssh_poll_ctx_remove al_ok 100 21 (scn_ready 2 2 2)) 100)) 2
       (ssh_poll_ctx_remove al_ok 100 21 (scn_ready 2 2 2)) [CbCall 21 10 1 0] \<and>
   polls_used (ctx_at (ssh_poll_ctx_remove al_ok 100 21 (scn_ready 2 2 2)) 100) = 2 \<and>
   ssh_poll_ctx_loop cbs_demo 100 0 3 0 (scn_ready 0 0 0) [] = (0, scn_ready 0 0 0, [])"
proof -
  have u: "polls_used (ctx_at (ssh_poll_ctx_remove al_ok 100 21 (scn_ready 2 2 2)) 100) = 2"
    by (simp add: scn_ready_facts op_defs)
  from ssh_poll_ctx_loop_step [of 0 3 3 "scn_ready 0 0 0" 100 cbs_demo "[]"]
       ssh_poll_ctx_loop_step [of 0 3 3 "scn_ready 2 2 2" 100 cbs_demo "[]"]
       ssh_poll_ctx_loop_step [of 0 3 0 "scn_ready 0 0 0" 100 cbs_demo "[]"]
       u
  show ?thesis
    by (simp add: scn_ready_facts cb_defs poll_at_def ctx_at_def rd_def
          mk_ctx_def mk_fd_def mk_poll_def Let_def)
qed


section \<open>Facts about the emulated wait primitive\<close>

lemma length_shift_handles: "length (shift_handles hs i n) = length hs"
proof (induction hs i n rule: shift_handles.induct)
  case (1 hs i n)
  then show ?case by (subst shift_handles.simps) simp
qed

lemma set_take_shift_handles:
  "n \<le> length hs \<Longrightarrow> set (take (n - 1) (shift_handles hs i n)) \<subseteq> set (take n hs)"
proof (induction hs i n rule: shift_handles.induct)
  case (1 hs i n)
  show ?case
  proof (cases "i < n")
    case False
    then have "shift_handles hs i n = hs" by (subst shift_handles.simps) simp
    then show ?thesis by (simp add: set_take_subset_set_take)
  next
    case True
    let ?hs = "hs[i - 1 := hs ! i]"
    have s: "shift_handles hs i n = shift_handles ?hs (i + 1) n"
      using True by (subst shift_handles.simps) simp
    have "set (take (n - 1) (shift_handles ?hs (i + 1) n)) \<subseteq> set (take n ?hs)"
      using "1.IH" [OF True] "1.prems" by simp
    also have "take n ?hs = (take n hs)[i - 1 := hs ! i]"
      by (simp add: take_update_swap)
    also have "set \<dots> \<subseteq> insert (hs ! i) (set (take n hs))"
      by (rule set_update_subset_insert)
    also have "hs ! i \<in> set (take n hs)"
      using True "1.prems" by (metis in_set_conv_nth length_take min.absorb2 nth_take)
    then have "insert (hs ! i) (set (take n hs)) = set (take n hs)" by auto
    finally show ?thesis by (simp add: s)
  qed
qed

lemma length_mark_ready [simp]: "length (mark_ready x fs) = length fs"
  by (induction fs) auto

lemma length_clear_revents [simp]: "length (clear_revents fs) = length fs"
  by (induction fs) auto

lemma length_on_first_mark [simp]: "length (on_first n (mark_ready x) fs) = length fs"
  by (simp add: on_first_def)

lemma length_on_first_clear [simp]: "length (on_first n clear_revents fs) = length fs"
  by (simp add: on_first_def)

lemma nth_mark_ready:
  "j < length fs \<Longrightarrow>
     mark_ready x fs ! j = (if fd (fs ! j) = x then (fs ! j)\<lparr>revents := events (fs ! j)\<rparr> else fs ! j)"
  by (induction fs arbitrary: j) (auto simp: nth_Cons split: nat.splits)

lemma nth_clear_revents: "j < length fs \<Longrightarrow> clear_revents fs ! j = (fs ! j)\<lparr>revents := 0\<rparr>"
  by (induction fs arbitrary: j) (auto simp: nth_Cons split: nat.splits)

lemma nth_on_first_mark:
  "j < length fs \<Longrightarrow>
     on_first n (mark_ready x) fs ! j =
       (if j < n \<and> fd (fs ! j) = x then (fs ! j)\<lparr>revents := events (fs ! j)\<rparr> else fs ! j)"
  by (auto simp: on_first_def nth_append nth_mark_ready)

lemma nth_on_first_clear:
  "j < length fs \<Longrightarrow>
     on_first n clear_revents fs ! j = (if j < n then (fs ! j)\<lparr>revents := 0\<rparr> else fs ! j)"
  by (auto simp: on_first_def nth_append nth_clear_revents)

lemma find_handle_length: "(find_handle x hs = length hs) = (x \<notin> set hs)"
  by (induction hs) auto

lemma collect_handles_sub:
  "x \<in> set (collect_handles fs hs) \<Longrightarrow> x \<in> set hs \<or> (0 < x \<and> x \<in> fd ` set fs)"
proof (induction fs arbitrary: hs)
  case Nil
  then show ?case by simp
next
  case (Cons f fs)
  show ?case
  proof (cases "0 < fd f")
    case False
    with Cons.prems have "x \<in> set (collect_handles fs hs)" by simp
    from Cons.IH [OF this] show ?thesis by auto
  next
    case pos: True
    show ?thesis
    proof (cases "find_handle (fd f) hs = length hs")
      case False
      with pos Cons.prems have "x \<in> set (collect_handles fs hs)" by simp
      from Cons.IH [OF this] show ?thesis by auto
    next
      case new: True
      show ?thesis
      proof (cases "length hs = MAXIMUM_WAIT_OBJECTS")
        case True
        with pos new Cons.prems show ?thesis by simp
      next
        case False
        with pos new Cons.prems have "x \<in> set (collect_handles fs (hs @ [fd f]))" by simp
        from Cons.IH [OF this] pos show ?thesis by auto
      qed
    qed
  qed
qed

lemma collect_handles_none:
  "\<forall>f\<in>set fs. fd f \<le> 0 \<Longrightarrow> collect_handles fs hs = hs"
  by (induction fs arbitrary: hs) auto


lemma fds_kept_refl: "fds_kept fds fds"
  by (simp add: fds_kept_def)

lemma fds_kept_trans: "fds_kept a b \<Longrightarrow> fds_kept b c \<Longrightarrow> fds_kept a c"
  by (auto simp: fds_kept_def)

lemma fds_kept_mark: "0 < x \<Longrightarrow> fds_kept fds (on_first n (mark_ready x) fds)"
  by (auto simp: fds_kept_def nth_on_first_mark)

lemma log_within_mono: "log_within S lg \<Longrightarrow> S \<subseteq> T \<Longrightarrow> log_within T lg"
  by (auto simp: log_within_def)

lemma log_within_append: "log_within S (a @ b) \<longleftrightarrow> log_within S a \<and> log_within S b"
  by (auto simp: log_within_def)

lemma log_within_wait:
  "log_within (set (take n hs)) (snd (snd (poll_rest_wait os hs n t w)))"
  by (simp add: poll_rest_wait_def log_within_def Let_def)

lemma poll_rest_unfold:
  "poll_rest os handles nhandles fds nfds timeout w =
     (let wt = poll_rest_wait os handles nhandles timeout w;
          ready = fst wt;
          w1 = fst (snd wt);
          lg = snd (snd wt)
      in if ready = WAIT_FAILED
         then \<lparr>r_rc = - 1, r_handles = handles, r_fds = fds, r_world = w1, r_log = lg\<rparr>
         else if ready = WAIT_TIMEOUT \<or> ready = WAIT_IO_COMPLETION
         then \<lparr>r_rc = 0, r_handles = handles, r_fds = fds, r_world = w1, r_log = lg\<rparr>
         else if WAIT_OBJECT_0 \<le> ready \<and> ready < WAIT_OBJECT_0 + nhandles
         then (let fds1 = on_first nfds (mark_ready (handles ! (ready - WAIT_OBJECT_0))) fds
               in if timeout = 0 \<and> 1 < nhandles
                  then (let handles1 = (if ready < nhandles - 1
                                        then shift_handles handles (ready - WAIT_OBJECT_0 + 1) nhandles
                                        else handles);
                            rr = poll_rest os handles1 (nhandles - 1) fds1 nfds 0 w1
                        in if r_rc rr < 0
                           then rr\<lparr>r_rc := - 1, r_log := lg @ r_log rr\<rparr>
                           else rr\<lparr>r_rc := r_rc rr + 1, r_log := lg @ r_log rr\<rparr>)
                  else \<lparr>r_rc = 1, r_handles = handles, r_fds = fds1, r_world = w1, r_log = lg\<rparr>)
         else \<lparr>r_rc = 0, r_handles = handles, r_fds = fds, r_world = w1, r_log = lg\<rparr>)"
  by (rule poll_rest.simps)

lemma poll_rest_inv:
  "nhandles \<le> length handles \<Longrightarrow> \<forall>x\<in>set (take nhandles handles). 0 < x \<Longrightarrow>
     fds_kept fds (r_fds (poll_rest os handles nhandles fds nfds timeout w)) \<and>
     log_within (set (take nhandles handles)) (r_log (poll_rest os handles nhandles fds nfds timeout w))"
proof (induction nhandles arbitrary: handles fds timeout w)
  case 0
  have "log_within {} (snd (snd (poll_rest_wait os handles 0 timeout w)))"
    using log_within_wait [of 0 handles os timeout w] by simp
  then show ?case
    by (subst (1 2) poll_rest_unfold)
       (simp add: Let_def fds_kept_refl WAIT_OBJECT_0_def)
next
  case (Suc n)
  define wt where "wt = poll_rest_wait os handles (Suc n) timeout w"
  define ready where "ready = fst wt"
  define w1 where "w1 = fst (snd wt)"
  define lg where "lg = snd (snd wt)"
  define fds1 where "fds1 = on_first nfds (mark_ready (handles ! (ready - WAIT_OBJECT_0))) fds"
  define handles1 where "handles1 =
     (if ready < Suc n - 1 then shift_handles handles (ready - WAIT_OBJECT_0 + 1) (Suc n) else handles)"
  define rr where "rr = poll_rest os handles1 n fds1 nfds 0 w1"
  have lg: "log_within (set (take (Suc n) handles)) lg"
    unfolding lg_def wt_def by (rule log_within_wait)
  have sub: "set (take n handles1) \<subseteq> set (take (Suc n) handles)"
  proof (cases "ready < Suc n - 1")
    case True
    then show ?thesis
      using set_take_shift_handles [OF Suc.prems(1), of "ready - WAIT_OBJECT_0 + 1"]
      by (simp add: handles1_def)
  next
    case False
    then show ?thesis
      by (simp add: handles1_def set_take_subset_set_take)
  qed
  have len1: "n \<le> length handles1"
    using Suc.prems(1) by (simp add: handles1_def length_shift_handles)
  have pos1: "\<forall>x\<in>set (take n handles1). 0 < x"
    using sub Suc.prems(2) by blast
  note ih = Suc.IH [OF len1 pos1, of fds1 0 w1, folded rr_def]
  have mark: "ready < Suc n \<Longrightarrow> fds_kept fds fds1"
  proof -
    assume "ready < Suc n"
    then have "handles ! (ready - WAIT_OBJECT_0) \<in> set (take (Suc n) handles)"
      using Suc.prems(1) by (simp add: WAIT_OBJECT_0_def in_set_conv_nth) (metis nth_take)
    then have "0 < handles ! (ready - WAIT_OBJECT_0)" using Suc.prems(2) by blast
    then show ?thesis unfolding fds1_def by (rule fds_kept_mark)
  qed
  have rec: "ready < Suc n \<Longrightarrow> fds_kept fds (r_fds rr) \<and> log_within (set (take (Suc n) handles)) (lg @ r_log rr)"
    using ih mark lg sub by (auto simp: log_within_append intro: fds_kept_trans log_within_mono)
  have u: "poll_rest os handles (Suc n) fds nfds timeout w =
      (if ready = WAIT_FAILED
         then \<lparr>r_rc = - 1, r_handles = handles, r_fds = fds, r_world = w1, r_log = lg\<rparr>
         else if ready = WAIT_TIMEOUT \<or> ready = WAIT_IO_COMPLETION
         then \<lparr>r_rc = 0, r_handles = handles, r_fds = fds, r_world = w1, r_log = lg\<rparr>
         else if WAIT_OBJECT_0 \<le> ready \<and> ready < WAIT_OBJECT_0 + Suc n
         then (if timeout = 0 \<and> 1 < Suc n
                  then (if r_rc rr < 0
                           then rr\<lparr>r_rc := - 1, r_log := lg @ r_log rr\<rparr>
                           else rr\<lparr>r_rc := r_rc rr + 1, r_log := lg @ r_log rr\<rparr>)
                  else \<lparr>r_rc = 1, r_handles = handles, r_fds = fds1, r_world = w1, r_log = lg\<rparr>)
         else \<lparr>r_rc = 0, r_handles = handles, r_fds = fds, r_world = w1, r_log = lg\<rparr>)"
    by (subst poll_rest_unfold)
       (simp add: Let_def wt_def ready_def w1_def lg_def fds1_def handles1_def rr_def)
  show ?case
    using rec mark lg
    by (simp add: u fds_kept_refl WAIT_OBJECT_0_def)
qed


lemma poll_rest_rc_zero:
  assumes "r_rc (poll_rest os handles nhandles fds nfds timeout w) = 0"
  shows "r_handles (poll_rest os handles nhandles fds nfds timeout w) = handles \<and>
         r_fds (poll_rest os handles nhandles fds nfds timeout w) = fds \<and>
         r_world (poll_rest os handles nhandles fds nfds timeout w) =
           fst (snd (poll_rest_wait os handles nhandles timeout w)) \<and>
         r_log (poll_rest os handles nhandles fds nfds timeout w) =
           snd (snd (poll_rest_wait os handles nhandles timeout w))"
proof -
  define R where "R = poll_rest os handles nhandles fds nfds timeout w"
  have E: "R =
     (let wt = poll_rest_wait os handles nhandles timeout w;
          ready = fst wt;
          w1 = fst (snd wt);
          lg = snd (snd wt)
      in if ready = WAIT_FAILED
         then \<lparr>r_rc = - 1, r_handles = handles, r_fds = fds, r_world = w1, r_log = lg\<rparr>
         else if ready = WAIT_TIMEOUT \<or> ready = WAIT_IO_COMPLETION
         then \<lparr>r_rc = 0, r_handles = handles, r_fds = fds, r_world = w1, r_log = lg\<rparr>
         else if WAIT_OBJECT_0 \<le> ready \<and> ready < WAIT_OBJECT_0 + nhandles
         then (let fds1 = on_first nfds (mark_ready (handles ! (ready - WAIT_OBJECT_0))) fds
               in if timeout = 0 \<and> 1 < nhandles
                  then (let handles1 = (if ready < nhandles - 1
                                        then shift_handles handles (ready - WAIT_OBJECT_0 + 1) nhandles
                                        else handles);
                            rr = poll_rest os handles1 (nhandles - 1) fds1 nfds 0 w1
                        in if r_rc rr < 0
                           then rr\<lparr>r_rc := - 1, r_log := lg @ r_log rr\<rparr>
                           else rr\<lparr>r_rc := r_rc rr + 1, r_log := lg @ r_log rr\<rparr>)
                  else \<lparr>r_rc = 1, r_handles = handles, r_fds = fds1, r_world = w1, r_log = lg\<rparr>)
         else \<lparr>r_rc = 0, r_handles = handles, r_fds = fds, r_world = w1, r_log = lg\<rparr>)"
    unfolding R_def by (rule poll_rest_unfold)
  have "r_rc R = 0" using assms by (simp add: R_def)
  then have "r_handles R = handles \<and> r_fds R = fds \<and>
         r_world R = fst (snd (poll_rest_wait os handles nhandles timeout w)) \<and>
         r_log R = snd (snd (poll_rest_wait os handles nhandles timeout w))"
    unfolding E by (auto simp: Let_def split: if_splits)
  then show ?thesis by (simp add: R_def)
qed

lemma to_int_INFINITE: "to_int INFINITE = - 1"
  by (simp add: to_int_def INFINITE_def)

lemma to_dword_minus1: "to_dword (- 1) = INFINITE"
  by (simp add: to_dword_def INFINITE_def)


lemma collect_handles_pos:
  "\<forall>x\<in>set (collect_handles (take nfds fds) []). 0 < x \<and> x \<in> fd ` set (take nfds fds)"
  using collect_handles_sub [of _ "take nfds fds" "[]"] by auto

lemma ssh_poll_waits_inv:
  assumes "nhandles = length handles" and "\<forall>x\<in>set handles. 0 < x"
  shows "fds_kept fds (r_fds (ssh_poll_waits os handles nhandles fds nfds timeout w)) \<and>
         log_within (set handles) (r_log (ssh_poll_waits os handles nhandles fds nfds timeout w))"
proof -
  have t: "take nhandles handles = handles" using assms(1) by simp
  have le: "nhandles \<le> length handles" using assms(1) by simp
  have pos: "\<forall>x\<in>set (take nhandles handles). 0 < x" using assms(2) t by simp
  note a = poll_rest_inv [OF le pos, unfolded t]
  show ?thesis
  proof (cases "1 < nhandles \<and> r_rc (poll_rest os handles nhandles fds nfds 0 w) = 0 \<and>
                 (to_dword timeout = INFINITE \<or> 10 \<le> timeout)")
    case False
    then show ?thesis
      using a [of fds os nfds 0 w] a [of fds os nfds timeout w]
      by (auto simp: ssh_poll_waits_def Let_def)
  next
    case True
    then have z: "r_rc (poll_rest os handles nhandles fds nfds 0 w) = 0" by simp
    note k = poll_rest_rc_zero [OF z]
    show ?thesis
      using True a [of fds os nfds 0 w]
        a [of fds os nfds timeout "r_world (poll_rest os handles nhandles fds nfds 0 w)"]
      by (simp add: ssh_poll_waits_def Let_def k log_within_append)
  qed
qed

lemma poll_rest_wait_log:
  "0 < nhandles \<Longrightarrow>
     snd (snd (poll_rest_wait os handles nhandles timeout w)) =
       [OsWait (take nhandles handles) (to_dword timeout)]"
  by (simp add: poll_rest_wait_def Let_def)

lemma poll_rest_log_head:
  "0 < nhandles \<Longrightarrow>
     \<exists>rest. r_log (poll_rest os handles nhandles fds nfds timeout w) =
       OsWait (take nhandles handles) (to_dword timeout) # rest"
  by (subst poll_rest_unfold) (simp add: Let_def poll_rest_wait_log)

lemma to_dword_finite:
  assumes "- (2 ^ 31) \<le> t" and "t < 10" and "t \<noteq> - 1"
  shows "to_dword t \<noteq> INFINITE"
proof (cases "0 \<le> t")
  case True
  with assms(2) have "t mod 4294967296 = t" by simp
  with assms(2) show ?thesis by (simp add: to_dword_def INFINITE_def)
next
  case False
  with assms(1) have "(t + 4294967296) mod 4294967296 = t + 4294967296"
    by (intro mod_pos_pos_trivial) simp_all
  then have "t mod 4294967296 = t + 4294967296" by simp
  with assms(3) show ?thesis by (simp add: to_dword_def INFINITE_def)
qed

lemmas win_defs = WAIT_OBJECT_0_def WAIT_TIMEOUT_def WAIT_IO_COMPLETION_def WAIT_FAILED_def
  INFINITE_def MAXIMUM_WAIT_OBJECTS_def to_dword_def to_int_def os_quiet_def os_late_def
  poll_rest_wait_def on_first_def

lemma handles_two: "collect_handles (take 2 fds_two) [] = [10, 11]"
  by (simp add: fds_two_def mk_fd_def MAXIMUM_WAIT_OBJECTS_def)

lemma handles_mixed: "collect_handles (take 4 fds_mixed) [] = [10, 11]"
  by (simp add: fds_mixed_def mk_fd_def MAXIMUM_WAIT_OBJECTS_def)

lemma probe_quiet:
  "poll_rest os_quiet [10, 11] 2 fds n 0 () =
     \<lparr>r_rc = 0, r_handles = [10, 11], r_fds = fds, r_world = (), r_log = [OsWait [10, 11] 0]\<rparr>"
  by (subst poll_rest_unfold) (simp add: win_defs Let_def)

lemma probe_late:
  "poll_rest os_late [10, 11] 2 fds n 0 () =
     \<lparr>r_rc = 0, r_handles = [10, 11], r_fds = fds, r_world = (), r_log = [OsWait [10, 11] 0]\<rparr>"
  by (subst poll_rest_unfold) (simp add: win_defs Let_def)

lemma wait_late:
  "poll_rest os_late [10, 11] 2 fds n 10 () =
     \<lparr>r_rc = 1, r_handles = [10, 11], r_fds = on_first n (mark_ready 11) fds, r_world = (),
      r_log = [OsWait [10, 11] 10]\<rparr>"
  by (subst poll_rest_unfold) (simp add: win_defs Let_def)

lemmas run_waits = probe_quiet probe_late wait_late
  probe_quiet [unfolded numeral_2_eq_2] probe_late [unfolded numeral_2_eq_2]
  wait_late [unfolded numeral_2_eq_2]

section \<open>Which entries can report readiness\<close>

text \<open>
  C9. Whatever the entries, the timeout and the operating system, every handle
  that the emulated \<^verbatim>\<open>ssh_poll\<close> passes to a wait is the strictly positive
  descriptor of one of the first \<open>nfds\<close> entries; and an entry whose descriptor
  is not strictly positive comes back as it was, or with its returned events
  cleared (after a failure): no fired handle sets them.
\<close>

theorem ssh_poll_nonpositive_untouched:
  "(\<forall>hs t. OsWait hs t \<in> set (p_log (ssh_poll os (Some fds) nfds timeout w)) \<longrightarrow>
      (\<forall>x\<in>set hs. 0 < x \<and> x \<in> fd ` set (take nfds fds))) \<and>
   (\<exists>out. p_fds (ssh_poll os (Some fds) nfds timeout w) = Some out \<and>
      length out = length fds \<and>
      (\<forall>j<length fds. fd (fds ! j) \<le> 0 \<longrightarrow>
         out ! j = fds ! j \<or> out ! j = (fds ! j)\<lparr>revents := 0\<rparr>))"
proof (cases "MAXIMUM_WAIT_OBJECTS \<le> nfds")
  case True
  then show ?thesis by (simp add: ssh_poll_def)
next
  case False
  define handles where "handles = collect_handles (take nfds fds) []"
  define t1 where "t1 = (if timeout = - 1 then to_int INFINITE else timeout)"
  define res where "res = ssh_poll_waits os handles (length handles) fds nfds t1 w"
  have pos: "\<forall>x\<in>set handles. 0 < x \<and> x \<in> fd ` set (take nfds fds)"
    unfolding handles_def by (rule collect_handles_pos)
  then have pos0: "\<forall>x\<in>set handles. 0 < x" by blast
  from ssh_poll_waits_inv [OF refl pos0, of fds os nfds t1 w]
  have kept: "fds_kept fds (r_fds res)" and lg: "log_within (set handles) (r_log res)"
    by (simp_all add: res_def)
  have u: "ssh_poll os (Some fds) nfds timeout w =
      (if r_rc res < 0
       then \<lparr>p_rc = r_rc res, p_errno = Some EBADF,
             p_fds = Some (on_first nfds clear_revents (r_fds res)),
             p_world = r_world res, p_log = r_log res\<rparr>
       else \<lparr>p_rc = r_rc res, p_errno = None, p_fds = Some (r_fds res),
             p_world = r_world res, p_log = r_log res\<rparr>)"
    using False by (simp add: ssh_poll_def Let_def handles_def t1_def res_def)
  have l: "p_log (ssh_poll os (Some fds) nfds timeout w) = r_log res"
    by (simp add: u)
  have one: "\<forall>hs t. OsWait hs t \<in> set (p_log (ssh_poll os (Some fds) nfds timeout w)) \<longrightarrow>
      (\<forall>x\<in>set hs. 0 < x \<and> x \<in> fd ` set (take nfds fds))"
    using lg pos unfolding l log_within_def by blast
  have two: "\<exists>out. p_fds (ssh_poll os (Some fds) nfds timeout w) = Some out \<and>
      length out = length fds \<and>
      (\<forall>j<length fds. fd (fds ! j) \<le> 0 \<longrightarrow>
         out ! j = fds ! j \<or> out ! j = (fds ! j)\<lparr>revents := 0\<rparr>)"
    using kept by (auto simp: u fds_kept_def nth_on_first_clear)
  from one two show ?thesis by blast
qed


theorem ssh_poll_nonpositive_untouched_witness:
  "p_rc (ssh_poll os_late (Some fds_mixed) 4 10 ()) = 1 \<and>
   p_log (ssh_poll os_late (Some fds_mixed) 4 10 ()) = [OsWait [10, 11] 0, OsWait [10, 11] 10] \<and>
   p_fds (ssh_poll os_late (Some fds_mixed) 4 10 ()) =
     Some [mk_fd 0, mk_fd 10, mk_fd (- 3), (mk_fd 11)\<lparr>revents := 1\<rparr>]"
  using ssh_poll_nonpositive_untouched [of os_late fds_mixed 4 10 "()"]
  by (simp add: ssh_poll_def ssh_poll_waits_def handles_mixed run_waits Let_def
      MAXIMUM_WAIT_OBJECTS_def to_dword_def INFINITE_def on_first_def fds_mixed_def mk_fd_def)

section \<open>The second wait\<close>

text \<open>
  C6, as the code has it. Let a call of the emulated \<^verbatim>\<open>ssh_poll\<close> have more
  than one distinct handle, and let the first \<^verbatim>\<open>poll_rest\<close>, with timeout 0,
  find nothing. When the timeout is infinite (\<open>-1\<close>) or at least ten
  milliseconds, the wait is repeated on the same handles with that timeout, and
  its result is the result of the call. For any other timeout of the range of
  an \<^verbatim>\<open>int\<close>, the values 1 to 9 among them, there is no second wait: the call
  returns 0 after the first one and the entries are unchanged.
\<close>

theorem ssh_poll_second_wait:
  assumes "nfds < MAXIMUM_WAIT_OBJECTS"
    and "handles = collect_handles (take nfds fds) []"
    and "1 < length handles"
    and "r_rc (poll_rest os handles (length handles) fds nfds 0 w) = 0"
  shows "(timeout = - 1 \<or> 10 \<le> timeout \<longrightarrow>
            (\<exists>rest. p_log (ssh_poll os (Some fds) nfds timeout w) =
               OsWait handles 0 # OsWait handles (to_dword timeout) # rest) \<and>
            p_rc (ssh_poll os (Some fds) nfds timeout w) =
              r_rc (poll_rest os handles (length handles) fds nfds timeout
                      (r_world (poll_rest os handles (length handles) fds nfds 0 w))) \<and>
            p_log (ssh_poll os (Some fds) nfds timeout w) =
              OsWait handles 0 #
              r_log (poll_rest os handles (length handles) fds nfds timeout
                      (r_world (poll_rest os handles (length handles) fds nfds 0 w)))) \<and>
         (- (2 ^ 31) \<le> timeout \<and> timeout < 10 \<and> timeout \<noteq> - 1 \<longrightarrow>
            p_rc (ssh_poll os (Some fds) nfds timeout w) = 0 \<and>
            p_fds (ssh_poll os (Some fds) nfds timeout w) = Some fds \<and>
            p_log (ssh_poll os (Some fds) nfds timeout w) = [OsWait handles 0])"
proof -
  define n where "n = length handles"
  define r0 where "r0 = poll_rest os handles n fds nfds 0 w"
  have z: "r_rc r0 = 0" using assms(4) by (simp add: r0_def n_def)
  have n: "0 < n" "1 < n" "take n handles = handles" using assms(3) by (auto simp: n_def)
  from poll_rest_rc_zero [OF z [unfolded r0_def]]
  have k: "r_handles r0 = handles" "r_fds r0 = fds" "r_log r0 = [OsWait handles 0]"
    using n by (simp_all add: r0_def poll_rest_wait_log to_dword_def)
  define t1 where "t1 = (if timeout = - 1 then to_int INFINITE else timeout)"
  have t1: "t1 = timeout" by (simp add: t1_def to_int_INFINITE)
  define r1 where "r1 = poll_rest os handles n fds nfds timeout (r_world r0)"
  define res where "res = ssh_poll_waits os handles n fds nfds timeout w"
  have u: "ssh_poll os (Some fds) nfds timeout w =
      (if r_rc res < 0
       then \<lparr>p_rc = r_rc res, p_errno = Some EBADF,
             p_fds = Some (on_first nfds clear_revents (r_fds res)),
             p_world = r_world res, p_log = r_log res\<rparr>
       else \<lparr>p_rc = r_rc res, p_errno = None, p_fds = Some (r_fds res),
             p_world = r_world res, p_log = r_log res\<rparr>)"
    using assms(1,2) t1 by (simp add: ssh_poll_def Let_def n_def t1_def res_def)
  have rep: "timeout = - 1 \<or> 10 \<le> timeout \<Longrightarrow> res = r1\<lparr>r_log := OsWait handles 0 # r_log r1\<rparr>"
    using n z k by (auto simp: res_def ssh_poll_waits_def Let_def r0_def [symmetric] r1_def to_dword_minus1)
  have norep: "- (2 ^ 31) \<le> timeout \<Longrightarrow> timeout < 10 \<Longrightarrow> timeout \<noteq> - 1 \<Longrightarrow> res = r0"
    using n z to_dword_finite [of timeout]
    by (simp add: res_def ssh_poll_waits_def Let_def r0_def [symmetric])
  from poll_rest_log_head [OF n(1), of os handles fds nfds timeout "r_world r0"]
  obtain rest where h: "r_log r1 = OsWait handles (to_dword timeout) # rest"
    using n by (auto simp: r1_def)
  have A: "timeout = - 1 \<or> 10 \<le> timeout \<Longrightarrow>
      (\<exists>rest. p_log (ssh_poll os (Some fds) nfds timeout w) =
               OsWait handles 0 # OsWait handles (to_dword timeout) # rest) \<and>
      p_rc (ssh_poll os (Some fds) nfds timeout w) = r_rc r1 \<and>
      p_log (ssh_poll os (Some fds) nfds timeout w) = OsWait handles 0 # r_log r1"
    using rep h by (simp add: u)
  have B: "- (2 ^ 31) \<le> timeout \<Longrightarrow> timeout < 10 \<Longrightarrow> timeout \<noteq> - 1 \<Longrightarrow>
      p_rc (ssh_poll os (Some fds) nfds timeout w) = 0 \<and>
      p_fds (ssh_poll os (Some fds) nfds timeout w) = Some fds \<and>
      p_log (ssh_poll os (Some fds) nfds timeout w) = [OsWait handles 0]"
    using norep z k by (simp add: u)
  from A B show ?thesis
    unfolding r1_def r0_def n_def by blast
qed

theorem ssh_poll_second_wait_witness:
  "2 < MAXIMUM_WAIT_OBJECTS \<and> 1 < length [10, 11 :: int] \<and>
   r_rc (poll_rest os_late [10, 11] (length [10, 11 :: int]) fds_two 2 0 ()) = 0 \<and>
   p_rc (ssh_poll os_late (Some fds_two) 2 10 ()) = 1 \<and>
   p_log (ssh_poll os_late (Some fds_two) 2 10 ()) = [OsWait [10, 11] 0, OsWait [10, 11] 10] \<and>
   p_rc (ssh_poll os_late (Some fds_two) 2 9 ()) = 0 \<and>
   p_log (ssh_poll os_late (Some fds_two) 2 9 ()) = [OsWait [10, 11] 0]"
proof -
  have a: "2 < MAXIMUM_WAIT_OBJECTS" by (simp add: MAXIMUM_WAIT_OBJECTS_def)
  have b: "[10, 11] = collect_handles (take 2 fds_two) []" by (simp add: handles_two)
  have c: "1 < length [10, 11 :: int]" by simp
  have d: "r_rc (poll_rest os_late [10, 11] (length [10, 11 :: int]) fds_two 2 0 ()) = 0"
    by (simp add: run_waits)
  from ssh_poll_second_wait [OF a b c d, of 10] ssh_poll_second_wait [OF a b c d, of 9] a c d
  show ?thesis
    by (simp add: run_waits to_dword_def)
qed

text \<open>
  With two handles, nothing ready and a timeout of 5 milliseconds the only wait
  is the one with timeout 0: the wait is not repeated with the timeout of the
  caller.
\<close>

theorem ssh_poll_short_timeout_not_repeated:
  "1 < length (collect_handles (take 2 fds_two) []) \<and>
   r_rc (poll_rest os_quiet (collect_handles (take 2 fds_two) []) 2 fds_two 2 0 ()) = 0 \<and>
   p_rc (ssh_poll os_quiet (Some fds_two) 2 5 ()) = 0 \<and>
   p_log (ssh_poll os_quiet (Some fds_two) 2 5 ()) = [OsWait [10, 11] 0]"
  by (simp add: handles_two run_waits ssh_poll_def ssh_poll_waits_def Let_def
      MAXIMUM_WAIT_OBJECTS_def to_dword_def INFINITE_def)

section \<open>No handle and an infinite timeout\<close>

text \<open>
  C10, as the code has it. A call of the emulated \<^verbatim>\<open>ssh_poll\<close> that passes the
  checks of its arguments (the array is there and has fewer than
  \<^verbatim>\<open>MAXIMUM_WAIT_OBJECTS\<close> entries), with the infinite timeout and no strictly
  positive descriptor among its entries, returns \<open>-1\<close> without waiting or
  sleeping, sets \<^verbatim>\<open>errno\<close> to \<^verbatim>\<open>EBADF\<close>, and has cleared the returned events
  of all its \<open>nfds\<close> entries.
\<close>

theorem ssh_poll_no_handle_infinite:
  assumes "nfds < MAXIMUM_WAIT_OBJECTS" and "\<forall>f\<in>set (take nfds fds). fd f \<le> 0"
  shows "ssh_poll os (Some fds) nfds (- 1) w =
           \<lparr>p_rc = - 1, p_errno = Some EBADF, p_fds = Some (on_first nfds clear_revents fds),
            p_world = w, p_log = []\<rparr> \<and>
         length (on_first nfds clear_revents fds) = length fds \<and>
         (\<forall>j<length fds. on_first nfds clear_revents fds ! j =
            (if j < nfds then (fds ! j)\<lparr>revents := 0\<rparr> else fds ! j))"
proof -
  have h: "collect_handles (take nfds fds) [] = []"
    using assms(2) by (rule collect_handles_none)
  have w: "poll_rest_wait os [] 0 (- 1) w = (WAIT_FAILED, w, [])"
    by (simp add: poll_rest_wait_def to_dword_minus1)
  have p: "poll_rest os [] 0 fds nfds (- 1) w =
      \<lparr>r_rc = - 1, r_handles = [], r_fds = fds, r_world = w, r_log = []\<rparr>"
    by (subst poll_rest_unfold) (simp add: w Let_def)
  have "ssh_poll os (Some fds) nfds (- 1) w =
           \<lparr>p_rc = - 1, p_errno = Some EBADF, p_fds = Some (on_first nfds clear_revents fds),
            p_world = w, p_log = []\<rparr>"
    using assms(1) by (simp add: ssh_poll_def h Let_def ssh_poll_waits_def to_int_INFINITE p)
  then show ?thesis by (simp add: nth_on_first_clear)
qed


theorem ssh_poll_no_handle_infinite_witness:
  "2 < MAXIMUM_WAIT_OBJECTS \<and> list_all (\<lambda>f. fd f \<le> 0) (take 2 fds_none) \<and>
   ssh_poll os_quiet (Some fds_none) 2 (- 1) () =
     \<lparr>p_rc = - 1, p_errno = Some EBADF,
      p_fds = Some [\<lparr>fd = 0, events = 1, revents = 0\<rparr>, \<lparr>fd = - 3, events = 1, revents = 0\<rparr>],
      p_world = (), p_log = []\<rparr>"
proof -
  have a: "2 < MAXIMUM_WAIT_OBJECTS" by (simp add: MAXIMUM_WAIT_OBJECTS_def)
  have b: "\<forall>f\<in>set (take 2 fds_none). fd f \<le> 0" by (simp add: fds_none_def)
  from ssh_poll_no_handle_infinite [OF a b, of os_quiet "()"] a b
  show ?thesis
    by (simp add: on_first_def fds_none_def list_all_iff)
qed

text \<open>
  With 64 entries the call is refused before anything else happens: it returns
  \<open>-1\<close>, with \<^verbatim>\<open>EINVAL\<close>, and the returned events stay as they were.
\<close>

theorem ssh_poll_too_many_not_cleared:
  "list_all (\<lambda>f. fd f \<le> 0) (take 64 fds_many) \<and>
   p_rc (ssh_poll os_quiet (Some fds_many) 64 (- 1) ()) = - 1 \<and>
   p_errno (ssh_poll os_quiet (Some fds_many) 64 (- 1) ()) = Some EINVAL \<and>
   p_fds (ssh_poll os_quiet (Some fds_many) 64 (- 1) ()) = Some fds_many \<and>
   revents (fds_many ! 0) = 1"
  by (simp add: ssh_poll_def MAXIMUM_WAIT_OBJECTS_def fds_many_def list_all_iff)


section \<open>Tearing a context down\<close>

lemma length_live [simp]: "length (live h c) = polls_used (ctx_at h c)"
  by (simp add: live_def)

lemma live_nth: "i < polls_used (ctx_at h c) \<Longrightarrow> live h c ! i = rd (pollptrs (ctx_at h c)) i"
  by (simp add: live_def)

lemma free_loop_ok:
  assumes con: "removal_contract I cbs c"
  shows "I i h \<Longrightarrow> used = polls_used (ctx_at h c) \<Longrightarrow> used - i < k \<Longrightarrow>
     \<exists>h1 tr1. ssh_poll_ctx_free_loop k cbs c i used h tr = Some (h1, tr1) \<and>
        mset (map callee tr1) = mset (map callee tr) + mset (drop i (live h c)) \<and>
        (\<forall>e\<in>set tr1. e \<in> set tr \<or> c_revents e = POLLERR) \<and>
        ctxs h1 c \<noteq> None"
proof (induction k arbitrary: i used h tr)
  case 0
  then show ?case by simp
next
  case (Suc k)
  from con Suc.prems(1) have alive: "ctxs h c \<noteq> None"
    by (auto simp: removal_contract_def)
  show ?case
  proof (cases "i < used")
    case False
    then have "drop i (live h c) = []" using Suc.prems(2) by simp
    with False alive show ?thesis by simp
  next
    case True
    define p where "p = rd (pollptrs (ctx_at h c)) i"
    define fd0 where "fd0 = fd (rd (pollfds (ctx_at h c)) i)"
    define r where "r = call_cb cbs h p fd0 POLLERR"
    define tr1 where "tr1 = tr @ [CbCall p fd0 POLLERR (cb_data (poll_at h p))]"
    have lt: "i < polls_used (ctx_at h c)" using True Suc.prems(2) by simp
    from con have "I i h \<longrightarrow>
        ctxs h c \<noteq> None \<and>
        (i < polls_used (ctx_at h c) \<longrightarrow>
           (let p = rd (pollptrs (ctx_at h c)) i;
                r = call_cb cbs h p (fd (rd (pollfds (ctx_at h c)) i)) POLLERR
            in if fst r < 0
               then I i (snd r) \<and>
                    mset (drop i (live (snd r) c)) + {#p#} = mset (drop i (live h c))
               else I (i + 1) (snd r) \<and> live (snd r) c = live h c))"
      unfolding removal_contract_def by blast
    with Suc.prems(1) lt
    have step: "if fst r < 0
               then I i (snd r) \<and>
                    mset (drop i (live (snd r) c)) + {#p#} = mset (drop i (live h c))
               else I (i + 1) (snd r) \<and> live (snd r) c = live h c"
      unfolding r_def p_def fd0_def Let_def by (auto split: if_splits)
    have pi: "live h c ! i = p" using lt by (simp add: live_nth p_def)
    have dr: "mset (drop i (live h c)) = {#p#} + mset (drop (Suc i) (live h c))"
      using lt pi by (simp add: Cons_nth_drop_Suc [symmetric])
    show ?thesis
    proof (cases "fst r < 0")
      case neg: True
      with step have inv: "I i (snd r)"
        and ms: "mset (drop i (live (snd r) c)) + {#p#} = mset (drop i (live h c))" by simp_all
      from ms have "size (mset (drop i (live (snd r) c)) + {#p#}) = size (mset (drop i (live h c)))"
        by simp
      then have "Suc (polls_used (ctx_at (snd r) c) - i) = polls_used (ctx_at h c) - i"
        by simp
      with Suc.prems(2,3) have fuel: "polls_used (ctx_at (snd r) c) - i < k" by simp
      from Suc.IH [OF inv refl fuel, of tr1]
      obtain h1 tr2 where
        a: "ssh_poll_ctx_free_loop k cbs c i (polls_used (ctx_at (snd r) c)) (snd r) tr1 = Some (h1, tr2)"
        and b: "mset (map callee tr2) = mset (map callee tr1) + mset (drop i (live (snd r) c))"
        and c: "\<forall>e\<in>set tr2. e \<in> set tr1 \<or> c_revents e = POLLERR"
        and d: "ctxs h1 c \<noteq> None" by blast
      have "ssh_poll_ctx_free_loop (Suc k) cbs c i used h tr = Some (h1, tr2)"
        using True neg a by (simp add: Let_def p_def fd0_def r_def tr1_def)
      moreover have "mset (map callee tr2) = mset (map callee tr) + mset (drop i (live h c))"
        using b ms by (simp add: tr1_def)
      moreover have "\<forall>e\<in>set tr2. e \<in> set tr \<or> c_revents e = POLLERR"
        using c by (auto simp: tr1_def)
      ultimately show ?thesis using d by blast
    next
      case pos: False
      with step have inv: "I (i + 1) (snd r)" and same: "live (snd r) c = live h c" by simp_all
      from same have "length (live (snd r) c) = length (live h c)" by simp
      then have u: "used = polls_used (ctx_at (snd r) c)" using Suc.prems(2) by simp
      have fuel: "used - (i + 1) < k" using Suc.prems(3) True by simp
      from Suc.IH [OF inv u fuel, of tr1]
      obtain h1 tr2 where
        a: "ssh_poll_ctx_free_loop k cbs c (i + 1) used (snd r) tr1 = Some (h1, tr2)"
        and b: "mset (map callee tr2) = mset (map callee tr1) + mset (drop (i + 1) (live (snd r) c))"
        and c: "\<forall>e\<in>set tr2. e \<in> set tr1 \<or> c_revents e = POLLERR"
        and d: "ctxs h1 c \<noteq> None" by blast
      have "ssh_poll_ctx_free_loop (Suc k) cbs c i used h tr = Some (h1, tr2)"
        using True pos a by (simp add: Let_def p_def fd0_def r_def tr1_def)
      moreover have "mset (map callee tr2) = mset (map callee tr) + mset (drop i (live h c))"
        using b same dr by (simp add: tr1_def)
      moreover have "\<forall>e\<in>set tr2. e \<in> set tr \<or> c_revents e = POLLERR"
        using c by (auto simp: tr1_def)
      ultimately show ?thesis using d by blast
    qed
  qed
qed

lemma scn_sweep1_facts:
  "ctxs scn_sweep1 100 = Some (mk_ctx [22, 22] [mk_fd 11, mk_fd 11] 2 1)"
  "polls scn_sweep1 21 = Some (mk_poll None 10 2)"
  "polls scn_sweep1 22 = Some (mk_poll (Some 100) 1 2)"
  by (simp_all add: scn_sweep1_def scn_add2_facts op_defs)

lemma scn_sweep2_facts:
  "ctxs scn_sweep2 100 = Some (mk_ctx [22, 22] [mk_fd 11, mk_fd 11] 2 0)"
  "polls scn_sweep2 21 = Some (mk_poll None 10 2)"
  "polls scn_sweep2 22 = Some (mk_poll None 11 2)"
  by (simp_all add: scn_sweep2_def scn_sweep1_facts op_defs)

lemma sweep_calls:
  "call_cb cbs_demo (scn_add2 2 2 2) 21 x y = (- 1, scn_sweep1)"
  "call_cb cbs_demo scn_sweep1 22 x y = (- 1, scn_sweep2)"
  by (simp_all add: cb_defs poll_at_def scn_add2_facts scn_sweep1_facts mk_poll_def
      scn_sweep1_def [symmetric] scn_sweep2_def [symmetric])

lemma upt_small: "[0..<2] = [0, 1]" "[0..<3] = [0, 1, 2]" "[0..<1] = [0]"
  by (simp_all add: numeral_2_eq_2 numeral_3_eq_3)

lemma sweep_lives:
  "live (scn_add2 2 2 2) 100 = [21, 22]"
  "live scn_sweep1 100 = [22]"
  "live scn_sweep2 100 = []"
  by (simp_all add: live_def ctx_at_def rd_def scn_add2_facts scn_sweep1_facts scn_sweep2_facts
      mk_ctx_def upt_small)

lemma sweep_contract: "removal_contract sweep_inv cbs_demo 100"
  unfolding removal_contract_def sweep_inv_def
proof (intro allI impI, elim conjE disjE)
  fix i :: nat and h :: heap
  assume "i = 0" "h = scn_add2 2 2 2"
  then show "ctxs h 100 \<noteq> None \<and>
        (i < polls_used (ctx_at h 100) \<longrightarrow>
           (let p = rd (pollptrs (ctx_at h 100)) i;
                r = call_cb cbs_demo h p (fd (rd (pollfds (ctx_at h 100)) i)) POLLERR
            in if fst r < 0
               then (i = 0 \<and> (snd r = scn_add2 2 2 2 \<or> snd r = scn_sweep1 \<or> snd r = scn_sweep2)) \<and>
                    mset (drop i (live (snd r) 100)) + {#p#} = mset (drop i (live h 100))
               else (i + 1 = 0 \<and> (snd r = scn_add2 2 2 2 \<or> snd r = scn_sweep1 \<or> snd r = scn_sweep2)) \<and> live (snd r) 100 = live h 100))"
    by (simp add: ctx_at_def rd_def scn_add2_facts mk_ctx_def mk_fd_def sweep_calls sweep_lives)
next
  fix i :: nat and h :: heap
  assume "i = 0" "h = scn_sweep1"
  then show "ctxs h 100 \<noteq> None \<and>
        (i < polls_used (ctx_at h 100) \<longrightarrow>
           (let p = rd (pollptrs (ctx_at h 100)) i;
                r = call_cb cbs_demo h p (fd (rd (pollfds (ctx_at h 100)) i)) POLLERR
            in if fst r < 0
               then (i = 0 \<and> (snd r = scn_add2 2 2 2 \<or> snd r = scn_sweep1 \<or> snd r = scn_sweep2)) \<and>
                    mset (drop i (live (snd r) 100)) + {#p#} = mset (drop i (live h 100))
               else (i + 1 = 0 \<and> (snd r = scn_add2 2 2 2 \<or> snd r = scn_sweep1 \<or> snd r = scn_sweep2)) \<and> live (snd r) 100 = live h 100))"
    by (simp add: ctx_at_def rd_def scn_sweep1_facts mk_ctx_def mk_fd_def sweep_calls sweep_lives)
next
  fix i :: nat and h :: heap
  assume "i = 0" "h = scn_sweep2"
  then show "ctxs h 100 \<noteq> None \<and>
        (i < polls_used (ctx_at h 100) \<longrightarrow>
           (let p = rd (pollptrs (ctx_at h 100)) i;
                r = call_cb cbs_demo h p (fd (rd (pollfds (ctx_at h 100)) i)) POLLERR
            in if fst r < 0
               then (i = 0 \<and> (snd r = scn_add2 2 2 2 \<or> snd r = scn_sweep1 \<or> snd r = scn_sweep2)) \<and>
                    mset (drop i (live (snd r) 100)) + {#p#} = mset (drop i (live h 100))
               else (i + 1 = 0 \<and> (snd r = scn_add2 2 2 2 \<or> snd r = scn_sweep1 \<or> snd r = scn_sweep2)) \<and> live (snd r) 100 = live h 100))"
    by (simp add: ctx_at_def scn_sweep2_facts mk_ctx_def)
qed

lemma detach_first_calls:
  "call_cb cbs_demo (scn_add3 0 3 0) 21 x y = (0, scn_add3 0 3 0)"
  "call_cb cbs_demo (scn_add3 0 3 0) 22 x y = (- 1, scn_del1 0 3 0)"
  "call_cb cbs_demo (scn_del1 0 3 0) 22 x y = (0, scn_del1 0 3 0)"
  by (simp_all add: cb_defs poll_at_def scn_add3_facts scn_del1_facts mk_poll_def
      scn_del1_def [symmetric])

text \<open>
  C3, as the code has it. Let a context be well formed (no more slots used than
  allocated, and no arrays when nothing is allocated), and let the callbacks
  keep the contract of the sweep for some invariant that holds at its start.
  Then \<^verbatim>\<open>ssh_poll_ctx_free\<close> ends, with any fuel greater than the number of
  attached objects; the callbacks it has called are, as a multiset, the objects
  attached at the start, each slot once; every call had \<^verbatim>\<open>POLLERR\<close> as
  returned events; and afterwards both arrays are released, and then the context.
\<close>

theorem ssh_poll_ctx_free_notifies_once:
  assumes "removal_contract I cbs c" and "I 0 h"
    and "polls_used (ctx_at h c) \<le> polls_allocated (ctx_at h c)"
    and "polls_allocated (ctx_at h c) = 0 \<longrightarrow>
           pollptrs (ctx_at h c) = None \<and> pollfds (ctx_at h c) = None"
    and "polls_used (ctx_at h c) < k"
  shows "\<exists>h1 tr. ssh_poll_ctx_free_arrays k cbs c h = Some (h1, tr) \<and>
           mset (map callee tr) = mset (live h c) \<and>
           (\<forall>e\<in>set tr. c_revents e = POLLERR) \<and>
           pollptrs (ctx_at h1 c) = None \<and> pollfds (ctx_at h1 c) = None \<and>
           ssh_poll_ctx_free k cbs c h = Some (h1\<lparr>ctxs := (ctxs h1)(c := None)\<rparr>, tr)"
proof (cases "0 < polls_allocated (ctx_at h c)")
  case False
  with assms(3,4) have "polls_used (ctx_at h c) = 0" "pollptrs (ctx_at h c) = None"
    "pollfds (ctx_at h c) = None" by simp_all
  with False show ?thesis
    by (simp add: ssh_poll_ctx_free_arrays_def ssh_poll_ctx_free_def live_def)
next
  case True
  have "polls_used (ctx_at h c) - 0 < k" using assms(5) by simp
  from free_loop_ok [OF assms(1,2) refl this, of "[]"]
  obtain h1 tr where
    a: "ssh_poll_ctx_free_loop k cbs c 0 (polls_used (ctx_at h c)) h [] = Some (h1, tr)"
    and b: "mset (map callee tr) = mset (live h c)"
    and c: "\<forall>e\<in>set tr. c_revents e = POLLERR"
    and d: "ctxs h1 c \<noteq> None" by auto
  define h2 where "h2 = ctx_upd c (\<lambda>cx. cx\<lparr>pollfds := None\<rparr>)
                        (ctx_upd c (\<lambda>cx. cx\<lparr>pollptrs := None\<rparr>) h1)"
  have e: "ssh_poll_ctx_free_arrays k cbs c h = Some (h2, tr)"
    using True a by (simp add: ssh_poll_ctx_free_arrays_def h2_def)
  have f: "pollptrs (ctx_at h2 c) = None \<and> pollfds (ctx_at h2 c) = None"
    using d by (auto simp: h2_def ctx_at_def ctx_upd_def)
  have g: "ssh_poll_ctx_free k cbs c h = Some (h2\<lparr>ctxs := (ctxs h2)(c := None)\<rparr>, tr)"
    by (simp add: ssh_poll_ctx_free_def e)
  from e b c f g show ?thesis by blast
qed


theorem ssh_poll_ctx_free_notifies_once_witness:
  "removal_contract sweep_inv cbs_demo 100 \<and> sweep_inv 0 (scn_add2 2 2 2) \<and>
   live (scn_add2 2 2 2) 100 = [21, 22] \<and>
   (\<exists>h1 tr. ssh_poll_ctx_free_arrays 3 cbs_demo 100 (scn_add2 2 2 2) = Some (h1, tr) \<and>
      mset (map callee tr) = {#21, 22#} \<and>
      pollptrs (ctx_at h1 100) = None \<and> pollfds (ctx_at h1 100) = None)"
proof -
  have a: "sweep_inv 0 (scn_add2 2 2 2)" by (simp add: sweep_inv_def)
  have b: "polls_used (ctx_at (scn_add2 2 2 2) 100) \<le> polls_allocated (ctx_at (scn_add2 2 2 2) 100)"
    by (simp add: ctx_at_def scn_add2_facts mk_ctx_def)
  have c: "polls_allocated (ctx_at (scn_add2 2 2 2) 100) = 0 \<longrightarrow>
           pollptrs (ctx_at (scn_add2 2 2 2) 100) = None \<and> pollfds (ctx_at (scn_add2 2 2 2) 100) = None"
    by (simp add: ctx_at_def scn_add2_facts mk_ctx_def)
  have d: "polls_used (ctx_at (scn_add2 2 2 2) 100) < 3"
    by (simp add: ctx_at_def scn_add2_facts mk_ctx_def)
  from ssh_poll_ctx_free_notifies_once [OF sweep_contract a b c d] sweep_contract a
  show ?thesis by (auto simp: sweep_lives)
qed

text \<open>
  Without the contract the sweep does not notify each object once. Three objects
  are attached; the callback of the second detaches the first, which the sweep
  has already visited, and reports a removal. The sweep then calls the second
  callback again and never reaches the third object.
\<close>

theorem ssh_poll_ctx_free_detach_out_of_order:
  "live (scn_add3 0 3 0) 100 = [21, 22, 23] \<and>
   map_option (\<lambda>r. map callee (snd r))
     (ssh_poll_ctx_free_arrays (Suc (Suc (Suc (Suc 0)))) cbs_demo 100 (scn_add3 0 3 0)) =
     Some [21, 22, 22]"
  by (simp add: live_def ssh_poll_ctx_free_arrays_def ctx_at_def rd_def
      scn_add3_facts scn_del1_facts mk_ctx_def mk_fd_def detach_first_calls Let_def upt_small)


lemma scn_del13_facts:
  "ctxs (scn_del13 ka kb kc) 100 = Some (mk_ctx [23, 22] [mk_fd 12, mk_fd 11] 2 1)"
  "polls (scn_del13 ka kb kc) 21 = Some (mk_poll None 10 ka)"
  "polls (scn_del13 ka kb kc) 22 = Some (mk_poll (Some 100) 1 kb)"
  "polls (scn_del13 ka kb kc) 23 = Some (mk_poll None 12 kc)"
  by (simp_all add: scn_del13_def scn_del1_facts op_defs)

lemma detach_self_calls:
  "call_cb cbs_demo (scn_add3 2 2 2) 21 x y = (- 1, scn_del1 2 2 2)"
  "call_cb cbs_demo (scn_del1 2 2 2) 23 x y = (- 1, scn_del13 2 2 2)"
  "call_cb cbs_demo (scn_del13 2 2 2) 23 x y = (0, scn_del13 2 2 2)"
  by (simp_all add: cb_defs poll_at_def scn_add3_facts scn_del1_facts scn_del13_facts mk_poll_def
      scn_del1_def [symmetric] scn_del13_def [symmetric])

text \<open>
  The sweep meets the position that \<^verbatim>\<open>ssh_poll_ctx_remove\<close> leaves stale.
  Three objects are attached and every callback detaches its own object with
  \<^verbatim>\<open>ssh_poll_ctx_remove\<close>. The object moved into slot 0 by the first detach
  still stores position 2, so its own detach empties the wrong slot: the sweep
  calls its callback a second time, never calls the callback of the object at
  22, and that object is still attached when the arrays are released.
\<close>

lemma ssh_poll_ctx_free_with_stale_idx:
  "live (scn_add3 2 2 2) 100 = [21, 22, 23] \<and>
   map_option (\<lambda>r. map callee (snd r))
     (ssh_poll_ctx_free_loop (Suc (Suc (Suc (Suc 0)))) cbs_demo 100 0 3 (scn_add3 2 2 2) []) =
     Some [21, 23, 23] \<and>
   map_option (\<lambda>r. ssh_poll_get_ctx 22 (fst r))
     (ssh_poll_ctx_free_loop (Suc (Suc (Suc (Suc 0)))) cbs_demo 100 0 3 (scn_add3 2 2 2) []) =
     Some (Some 100)"
  by (simp add: live_def ctx_at_def rd_def poll_at_def ssh_poll_get_ctx_def
      scn_add3_facts scn_del1_facts scn_del13_facts mk_ctx_def mk_fd_def mk_poll_def
      detach_self_calls Let_def upt_small)


end
